theory Spec2Isabelle
  imports Main "HOL-Library.Log_Nat"
begin

section \<open>JavaScript numbers\<close>

text \<open>
  The scripts of \<^verbatim>\<open>docs/FEATURES_AND_FLOWS.md\<close> compute odds and payouts with the
  TypeScript type \<^verbatim>\<open>number\<close>, an IEEE 754 double. A finite double is modelled by the
  rational it denotes; \<open>fl\<close> rounds a rational to the nearest double (53 significant
  bits, ties to the even significand). The exponent range is not bounded: the columns
  are Prisma \<^verbatim>\<open>Int\<close> (32 bit), so every quotient and product computed below lies
  between \<open>2 powi -31\<close> and \<open>2 ^ 62\<close>, far from overflow and from subnormal numbers.
  The sign of zero is not modelled. Sums and differences of \<^verbatim>\<open>Int\<close> columns are taken
  in \<open>int\<close>: on integers below \<open>2 ^ 53\<close> double precision is exact.
\<close>

datatype number = Fin rat | PInf | NInf | NaN

definition round_half_even :: "rat \<Rightarrow> int" where
  "round_half_even y =
     (let f = \<lfloor>y\<rfloor>; r = y - of_int f
      in if r < 1 / 2 then f else if 1 / 2 < r then f + 1 else if even f then f else f + 1)"

definition exponent :: "rat \<Rightarrow> int" where
  \<comment> \<open>for \<open>0 < x\<close>, the \<open>e\<close> with \<open>2 powi e \<le> x < 2 powi (e + 1)\<close>\<close>
  "exponent x =
     (let (p, q) = quotient_of x; d = bitlen p - bitlen q
      in if 2 powi d \<le> x then d else d - 1)"

definition fl :: "rat \<Rightarrow> rat" where
  "fl x = (if x = 0 then 0
           else let a = \<bar>x\<bar>; s = 2 powi (exponent a - 52)
                in sgn x * of_int (round_half_even (a / s)) * s)"

definition Number :: "int \<Rightarrow> number" where
  \<comment> \<open>an \<^verbatim>\<open>Int\<close> column read into a JavaScript number\<close>
  "Number n = Fin (fl (of_int n))"

fun js_div :: "number \<Rightarrow> number \<Rightarrow> number" where
  "js_div (Fin a) (Fin b) =
     (if b = 0 then (if a = 0 then NaN else if 0 < a then PInf else NInf)
      else Fin (fl (a / b)))"
| "js_div (Fin a) PInf = Fin 0"
| "js_div (Fin a) NInf = Fin 0"
| "js_div PInf (Fin b) = (if 0 \<le> b then PInf else NInf)"
| "js_div NInf (Fin b) = (if 0 \<le> b then NInf else PInf)"
| "js_div _ _ = NaN"

fun js_mul :: "number \<Rightarrow> number \<Rightarrow> number" where
  "js_mul (Fin a) (Fin b) = Fin (fl (a * b))"
| "js_mul (Fin a) PInf = (if a = 0 then NaN else if 0 < a then PInf else NInf)"
| "js_mul (Fin a) NInf = (if a = 0 then NaN else if 0 < a then NInf else PInf)"
| "js_mul PInf (Fin b) = (if b = 0 then NaN else if 0 < b then PInf else NInf)"
| "js_mul NInf (Fin b) = (if b = 0 then NaN else if 0 < b then NInf else PInf)"
| "js_mul PInf PInf = PInf"
| "js_mul NInf NInf = PInf"
| "js_mul PInf NInf = NInf"
| "js_mul NInf PInf = NInf"
| "js_mul _ _ = NaN"

fun Math_floor :: "number \<Rightarrow> number" where
  "Math_floor (Fin a) = Fin (of_int \<lfloor>a\<rfloor>)"
| "Math_floor x = x"

section \<open>The schema\<close>

text \<open>
  The Prisma models of the schema document, with the columns the scripts read or write.
  A column whose name several models share carries the initial of its model:
  \<open>b_amount\<close> is \<^verbatim>\<open>Bet.amount\<close>, \<open>t_amount\<close> is \<^verbatim>\<open>Transaction.amount\<close>. A row is
  addressed by its position in its table, which stands for the \<^verbatim>\<open>cuid()\<close> key.
  Timestamps are natural numbers. A column that a \<^verbatim>\<open>create\<close> call leaves out and that
  has no default is \<open>None\<close>. Of a notification the recipient, the type, the coins its
  message quotes and the prediction of its link are kept; \<open>N_BET_WON\<close> and \<open>N_BET_LOST\<close>
  are the two notification types the scripts use.
\<close>

datatype PredictionStatus = DRAFT | ACTIVE | LOCKED | RESOLVED | CANCELLED | DISPUTED

datatype BetStatus = PENDING | WON | LOST | REFUNDED

datatype TransactionType =
  INITIAL_BALANCE | BET_PLACED | BET_WON | BET_REFUNDED | DAILY_BONUS | ACHIEVEMENT
  | CREATOR_REWARD | ADMIN_ADJUSTMENT

datatype NotificationType = N_BET_WON | N_BET_LOST

record User =
  coinBalance :: int
  u_totalBets :: int
  totalWins :: int
  totalLosses :: int

record Prediction =
  creatorId :: nat
  endDate :: nat
  p_resolvedAt :: "nat option"
  p_status :: PredictionStatus
  correctOptionId :: "nat option"
  totalPool :: int
  p_totalBets :: int

record PredictionOption =
  o_predictionId :: nat
  o_totalBets :: int
  totalCoins :: int

record Bet =
  b_userId :: nat
  b_predictionId :: nat
  b_optionId :: nat
  b_amount :: int
  b_oddsAtBet :: number
  b_status :: BetStatus
  b_payout :: int
  b_resolvedAt :: "nat option"

record Transaction =
  t_userId :: nat
  t_type :: TransactionType
  t_amount :: int
  t_balanceBefore :: "int option"
  t_balanceAfter :: "int option"
  t_betId :: "nat option"

record Notification =
  recipientId :: nat
  n_type :: NotificationType
  n_coins :: "int option"
  n_predictionId :: nat

record db =
  users :: "User list"
  predictions :: "Prediction list"
  options :: "PredictionOption list"
  bets :: "Bet list"
  transactions :: "Transaction list"
  notifications :: "Notification list"

section \<open>The Prisma client\<close>

text \<open>
  A rejected promise is \<open>Inl\<close>; \<open>await\<close> passes it on, as an exception leaves the
  enclosing \<^verbatim>\<open>async\<close> callback. \<open>prisma_transaction\<close> is \<^verbatim>\<open>prisma.$transaction\<close>: when
  the callback throws, every write of the callback is rolled back.

  \<^verbatim>\<open>update\<close> and \<^verbatim>\<open>findUnique\<close> look a row up by its key; \<^verbatim>\<open>update\<close> on a missing row
  throws. \<^verbatim>\<open>create\<close> appends the row the script passes. Both enforce the schema: an
  \<^verbatim>\<open>Int\<close> column holds 32 bits (\<open>int32\<close>), and a write throws unless the \<^verbatim>\<open>Int\<close>
  columns of the row it writes are in range; a new row whose relation names no row
  throws; and \<^verbatim>\<open>transaction.create\<close> refuses a row that the \<^verbatim>\<open>Transaction\<close> model does
  not admit.
\<close>

datatype error =
  MarketNotFound | InvalidOption | MarketClosed | InvalidAmount | AccountNotFound
  | InsufficientFunds
  | RecordNotFound | ValidationError | TypeError | UniqueConstraintFailed
  | ValueOutOfRange | ForeignKeyConstraintFailed

definition await :: "error + 'a \<Rightarrow> ('a \<Rightarrow> error + 'b) \<Rightarrow> error + 'b" where
  "await m k = (case m of Inl e \<Rightarrow> Inl e | Inr x \<Rightarrow> k x)"

fun forEach :: "('a \<Rightarrow> db \<Rightarrow> error + db) \<Rightarrow> 'a list \<Rightarrow> db \<Rightarrow> error + db" where
  "forEach f [] s = Inr s"
| "forEach f (x # xs) s = await (f x s) (forEach f xs)"

definition prisma_transaction :: "(db \<Rightarrow> error + db) \<Rightarrow> db \<Rightarrow> error option \<times> db" where
  "prisma_transaction body s = (case body s of Inl e \<Rightarrow> (Some e, s) | Inr s' \<Rightarrow> (None, s'))"

definition int32 :: "int \<Rightarrow> bool" where
  "int32 n = (- (2 ^ 31) \<le> n \<and> n < 2 ^ 31)"

definition prismaInt :: "number \<Rightarrow> error + int" where
  \<comment> \<open>a JavaScript number passed where the schema has an \<^verbatim>\<open>Int\<close>\<close>
  "prismaInt x =
     (case x of
        Fin a \<Rightarrow> if of_int \<lfloor>a\<rfloor> = a \<and> int32 \<lfloor>a\<rfloor> then Inr \<lfloor>a\<rfloor> else Inl ValidationError
      | _ \<Rightarrow> Inl ValidationError)"

text \<open>The \<^verbatim>\<open>Int\<close> columns of a row are in range.\<close>

definition User_columns :: "User \<Rightarrow> bool" where
  "User_columns u =
     (int32 (coinBalance u) \<and> int32 (u_totalBets u) \<and> int32 (totalWins u)
      \<and> int32 (totalLosses u))"

definition Prediction_columns :: "Prediction \<Rightarrow> bool" where
  "Prediction_columns p = (int32 (totalPool p) \<and> int32 (p_totalBets p))"

definition PredictionOption_columns :: "PredictionOption \<Rightarrow> bool" where
  "PredictionOption_columns opt = (int32 (o_totalBets opt) \<and> int32 (totalCoins opt))"

definition Bet_columns :: "Bet \<Rightarrow> bool" where
  "Bet_columns b = (int32 (b_amount b) \<and> int32 (b_payout b))"

definition Transaction_columns :: "Transaction \<Rightarrow> bool" where
  "Transaction_columns t =
     (int32 (t_amount t)
      \<and> (case t_balanceBefore t of None \<Rightarrow> True | Some n \<Rightarrow> int32 n)
      \<and> (case t_balanceAfter t of None \<Rightarrow> True | Some n \<Rightarrow> int32 n))"

definition user_update :: "nat \<Rightarrow> (User \<Rightarrow> User) \<Rightarrow> db \<Rightarrow> error + User \<times> db" where
  "user_update i f s =
     (if i < length (users s)
      then let u = f (users s ! i)
           in if User_columns u then Inr (u, s\<lparr>users := (users s)[i := u]\<rparr>)
              else Inl ValueOutOfRange
      else Inl RecordNotFound)"

definition prediction_update :: "nat \<Rightarrow> (Prediction \<Rightarrow> Prediction) \<Rightarrow> db \<Rightarrow> error + db" where
  "prediction_update i f s =
     (if i < length (predictions s)
      then let p = f (predictions s ! i)
           in if Prediction_columns p then Inr (s\<lparr>predictions := (predictions s)[i := p]\<rparr>)
              else Inl ValueOutOfRange
      else Inl RecordNotFound)"

definition predictionOption_update ::
  "nat \<Rightarrow> (PredictionOption \<Rightarrow> PredictionOption) \<Rightarrow> db \<Rightarrow> error + db" where
  "predictionOption_update i f s =
     (if i < length (options s)
      then let opt = f (options s ! i)
           in if PredictionOption_columns opt then Inr (s\<lparr>options := (options s)[i := opt]\<rparr>)
              else Inl ValueOutOfRange
      else Inl RecordNotFound)"

definition predictionOption_findUnique :: "nat \<Rightarrow> db \<Rightarrow> PredictionOption option" where
  "predictionOption_findUnique i s =
     (if i < length (options s) then Some (options s ! i) else None)"

definition bet_update :: "nat \<Rightarrow> (Bet \<Rightarrow> Bet) \<Rightarrow> db \<Rightarrow> error + db" where
  "bet_update i f s =
     (if i < length (bets s)
      then let b = f (bets s ! i)
           in if Bet_columns b then Inr (s\<lparr>bets := (bets s)[i := b]\<rparr>)
              else Inl ValueOutOfRange
      else Inl RecordNotFound)"

definition bet_create :: "Bet \<Rightarrow> db \<Rightarrow> error + nat \<times> db" where
  "bet_create row s =
     (if \<not> Bet_columns row then Inl ValueOutOfRange
      else if \<not> (b_userId row < length (users s) \<and> b_predictionId row < length (predictions s)
                 \<and> b_optionId row < length (options s))
        then Inl ForeignKeyConstraintFailed
      else Inr (length (bets s), s\<lparr>bets := bets s @ [row]\<rparr>))"

definition bet_findMany :: "(Bet \<Rightarrow> bool) \<Rightarrow> db \<Rightarrow> (nat \<times> Bet) list" where
  "bet_findMany P s = filter (\<lambda>ib. P (snd ib)) (enumerate 0 (bets s))"

text \<open>
  What the \<^verbatim>\<open>Transaction\<close> model of the schema asks of a new row: \<^verbatim>\<open>balanceBefore\<close> and
  \<^verbatim>\<open>balanceAfter\<close> are \<^verbatim>\<open>Int\<close>, not \<^verbatim>\<open>Int?\<close>, and have no default, so the client
  refuses a call that leaves one out; \<^verbatim>\<open>betId\<close> is \<^verbatim>\<open>String? @unique\<close>.
  \<open>schema_transaction_create\<close> is the table after a \<^verbatim>\<open>create\<close> that meets both, or
  the error thrown; \<open>transaction_create\<close> adds the range of the \<^verbatim>\<open>Int\<close> columns and the
  relations to \<^verbatim>\<open>User\<close> and \<^verbatim>\<open>Bet\<close>, which need the other tables.
\<close>

definition betId_taken :: "nat \<Rightarrow> Transaction list \<Rightarrow> bool" where
  "betId_taken bet_id txs = list_ex (\<lambda>t. t_betId t = Some bet_id) txs"

definition betId_unique :: "Transaction list \<Rightarrow> bool" where
  "betId_unique txs = distinct (List.map_filter t_betId txs)"

definition schema_transaction_create :: "Transaction \<Rightarrow> Transaction list \<Rightarrow> error + Transaction list" where
  "schema_transaction_create row txs =
     (if t_balanceBefore row = None \<or> t_balanceAfter row = None then Inl ValidationError
      else case t_betId row of
             None \<Rightarrow> Inr (txs @ [row])
           | Some bet_id \<Rightarrow>
               if betId_taken bet_id txs then Inl UniqueConstraintFailed else Inr (txs @ [row]))"

definition transaction_create :: "Transaction \<Rightarrow> db \<Rightarrow> error + db" where
  "transaction_create row s =
     await (schema_transaction_create row (transactions s)) (\<lambda>txs.
       if \<not> Transaction_columns row then Inl ValueOutOfRange
       else if \<not> (t_userId row < length (users s)
                  \<and> (case t_betId row of None \<Rightarrow> True | Some bet_id \<Rightarrow> bet_id < length (bets s)))
         then Inl ForeignKeyConstraintFailed
       else Inr (s\<lparr>transactions := txs\<rparr>))"

definition notification_create :: "Notification \<Rightarrow> db \<Rightarrow> error + db" where
  "notification_create row s =
     (if \<not> recipientId row < length (users s) then Inl ForeignKeyConstraintFailed
      else Inr (s\<lparr>notifications := notifications s @ [row]\<rparr>))"

section \<open>Placing a bet\<close>

text \<open>
  Flow 4.1, \<^emph>\<open>Odds Calculation\<close>: the odds shown for an option while the user enters
  \<open>betAmount\<close> on \<open>selectedOption\<close>, and the payout shown with them.
\<close>

definition odds :: "int \<Rightarrow> int \<Rightarrow> number" where
  "odds totalPool' optionTotal = js_div (Number totalPool') (Number optionTotal)"

definition oddsPreview :: "Prediction \<Rightarrow> nat \<Rightarrow> PredictionOption \<Rightarrow> nat \<Rightarrow> int \<Rightarrow> number" where
  "oddsPreview prediction option_id option selectedOption betAmount =
     odds (totalPool prediction + betAmount)
          (totalCoins option + (if selectedOption = option_id then betAmount else 0))"

definition potentialPayout :: "int \<Rightarrow> number \<Rightarrow> number" where
  "potentialPayout betAmount odds' = Math_floor (js_mul (Number betAmount) odds')"

text \<open>
  Modelled from the spec: the validation of step 7 of flow 4.1. Its code
  (\<^verbatim>\<open>validateBet\<close> of \<^verbatim>\<open>betting.service\<close>) is not in the repository, only its test and
  the list of what it checks are. The preconditions, their order and their failures are
  those of section 4.4 of the specification; \<open>maxBet\<close> is the configured per-wager
  ceiling, \<open>now\<close> the clock. A missing account is the \<open>NotFound\<close> of section 7.
\<close>

definition validateBet :: "nat \<Rightarrow> int \<Rightarrow> nat \<Rightarrow> nat \<Rightarrow> nat \<Rightarrow> int \<Rightarrow> db \<Rightarrow> error option" where
  "validateBet now maxBet userId predictionId optionId betAmount s =
     (if \<not> predictionId < length (predictions s) then Some MarketNotFound
      else if \<not> (optionId < length (options s)
                 \<and> o_predictionId (options s ! optionId) = predictionId)
        then Some InvalidOption
      else if \<not> (p_status (predictions s ! predictionId) = ACTIVE
                 \<and> now < endDate (predictions s ! predictionId))
        then Some MarketClosed
      else if \<not> (0 < betAmount \<and> betAmount \<le> maxBet) then Some InvalidAmount
      else if \<not> userId < length (users s) then Some AccountNotFound
      else if coinBalance (users s ! userId) < betAmount then Some InsufficientFunds
      else None)"

text \<open>Flow 4.1, \<^emph>\<open>Transaction Example\<close>: the callback of step 8, statement by statement.\<close>

definition placeBet_tx :: "nat \<Rightarrow> nat \<Rightarrow> nat \<Rightarrow> int \<Rightarrow> number \<Rightarrow> db \<Rightarrow> error + db" where
  "placeBet_tx userId predictionId optionId betAmount currentOdds s =
     await (user_update userId
              (\<lambda>u. u\<lparr>coinBalance := coinBalance u - betAmount,
                      u_totalBets := u_totalBets u + 1\<rparr>) s) (\<lambda>(user, s).
     await (bet_create
              \<lparr>b_userId = userId, b_predictionId = predictionId, b_optionId = optionId,
               b_amount = betAmount, b_oddsAtBet = currentOdds, b_status = PENDING,
               b_payout = 0, b_resolvedAt = None\<rparr> s) (\<lambda>(bet_id, s).
     await (prediction_update predictionId
              (\<lambda>p. p\<lparr>totalPool := totalPool p + betAmount,
                      p_totalBets := p_totalBets p + 1\<rparr>) s) (\<lambda>s.
     await (predictionOption_update optionId
              (\<lambda>opt. opt\<lparr>totalCoins := totalCoins opt + betAmount,
                          o_totalBets := o_totalBets opt + 1\<rparr>) s) (\<lambda>s.
     transaction_create
       \<lparr>t_userId = userId, t_type = BET_PLACED, t_amount = - betAmount,
        t_balanceBefore = Some (coinBalance user + betAmount),
        t_balanceAfter = Some (coinBalance user),
        t_betId = Some bet_id\<rparr> s))))"

definition placeBet ::
  "nat \<Rightarrow> int \<Rightarrow> nat \<Rightarrow> nat \<Rightarrow> nat \<Rightarrow> int \<Rightarrow> number \<Rightarrow> db \<Rightarrow> error option \<times> db" where
  "placeBet now maxBet userId predictionId optionId betAmount currentOdds s =
     (case validateBet now maxBet userId predictionId optionId betAmount s of
        Some e \<Rightarrow> (Some e, s)
      | None \<Rightarrow>
          prisma_transaction (placeBet_tx userId predictionId optionId betAmount currentOdds) s)"

section \<open>Resolving a prediction\<close>

text \<open>
  Flow 5.1, \<^emph>\<open>Payout Calculation\<close>. The script reads \<^verbatim>\<open>prediction\<close>, which it does not
  bind: it is the row of \<open>predictionId\<close>, whose \<^verbatim>\<open>totalPool\<close> and \<^verbatim>\<open>creatorId\<close> no
  statement of the script changes. \<open>0.05\<close> is the double nearest to one twentieth.
  \<open>payout\<close> is the constant of that name in the loop over the winning bets: the step
  passes it as the increment of \<^verbatim>\<open>coinBalance\<close>, as \<^verbatim>\<open>Bet.payout\<close> and as the
  \<^verbatim>\<open>amount\<close> of the \<^verbatim>\<open>BET_WON\<close> entry. That entry is created without
  \<^verbatim>\<open>balanceBefore\<close> and \<^verbatim>\<open>balanceAfter\<close>.
\<close>

definition payout :: "Bet \<Rightarrow> number \<Rightarrow> number" where
  "payout bet oddsForWinners = Math_floor (js_mul (Number (b_amount bet)) oddsForWinners)"

definition payWinner :: "nat \<Rightarrow> nat \<Rightarrow> number \<Rightarrow> nat \<times> Bet \<Rightarrow> db \<Rightarrow> error + db" where
  "payWinner now predictionId oddsForWinners ib s =
     (case ib of (bet_id, bet) \<Rightarrow>
        await (prismaInt (payout bet oddsForWinners)) (\<lambda>coins.
        await (user_update (b_userId bet)
                 (\<lambda>u. u\<lparr>coinBalance := coinBalance u + coins,
                         totalWins := totalWins u + 1\<rparr>) s) (\<lambda>(_, s).
        await (bet_update bet_id
                 (\<lambda>b. b\<lparr>b_status := WON, b_payout := coins, b_resolvedAt := Some now\<rparr>) s) (\<lambda>s.
        await (transaction_create
                 \<lparr>t_userId = b_userId bet, t_type = BET_WON, t_amount = coins,
                  t_balanceBefore = None, t_balanceAfter = None,
                  t_betId = Some bet_id\<rparr> s) (\<lambda>s.
        notification_create
          \<lparr>recipientId = b_userId bet, n_type = N_BET_WON, n_coins = Some coins,
           n_predictionId = predictionId\<rparr> s)))))"

definition markLoser :: "nat \<Rightarrow> nat \<Rightarrow> nat \<times> Bet \<Rightarrow> db \<Rightarrow> error + db" where
  "markLoser now predictionId ib s =
     (case ib of (bet_id, bet) \<Rightarrow>
        await (user_update (b_userId bet) (\<lambda>u. u\<lparr>totalLosses := totalLosses u + 1\<rparr>) s)
          (\<lambda>(_, s).
        await (bet_update bet_id (\<lambda>b. b\<lparr>b_status := LOST, b_resolvedAt := Some now\<rparr>) s) (\<lambda>s.
        notification_create
          \<lparr>recipientId = b_userId bet, n_type = N_BET_LOST, n_coins = None,
           n_predictionId = predictionId\<rparr> s)))"

definition creatorReward :: "int \<Rightarrow> number" where
  "creatorReward totalPool' = Math_floor (js_mul (Number totalPool') (Fin (fl (1 / 20))))"

definition resolve_tx :: "nat \<Rightarrow> nat \<Rightarrow> nat \<Rightarrow> db \<Rightarrow> error + db" where
  "resolve_tx now predictionId correctOptionId' s0 =
     await (prediction_update predictionId
              (\<lambda>p. p\<lparr>p_status := RESOLVED, correctOptionId := Some correctOptionId',
                      p_resolvedAt := Some now\<rparr>) s0) (\<lambda>s.
     let prediction = predictions s ! predictionId;
         allBets = bet_findMany (\<lambda>b. b_predictionId b = predictionId) s;
         winningBets = filter (\<lambda>ib. b_optionId (snd ib) = correctOptionId') allBets
     in case predictionOption_findUnique correctOptionId' s of
          None \<Rightarrow> Inl TypeError
        | Some correctOption \<Rightarrow>
            let oddsForWinners = odds (totalPool prediction) (totalCoins correctOption)
            in await (forEach (payWinner now predictionId oddsForWinners) winningBets s) (\<lambda>s.
               let losingBets = filter (\<lambda>ib. b_optionId (snd ib) \<noteq> correctOptionId') allBets
               in await (forEach (markLoser now predictionId) losingBets s) (\<lambda>s.
                  await (prismaInt (creatorReward (totalPool prediction))) (\<lambda>reward.
                  await (user_update (creatorId prediction)
                           (\<lambda>u. u\<lparr>coinBalance := coinBalance u + reward\<rparr>) s) (\<lambda>(_, s).
                  Inr s)))))"

definition resolve :: "nat \<Rightarrow> nat \<Rightarrow> nat \<Rightarrow> db \<Rightarrow> error option \<times> db" where
  "resolve now predictionId correctOptionId' s =
     prisma_transaction (resolve_tx now predictionId correctOptionId') s"

section \<open>Cancelling a prediction\<close>

text \<open>
  Flow 3.3, \<^emph>\<open>Refund Logic\<close>. The \<^verbatim>\<open>BET_REFUNDED\<close> entry is created without
  \<^verbatim>\<open>balanceBefore\<close> and \<^verbatim>\<open>balanceAfter\<close>.
\<close>

definition refundBet :: "nat \<times> Bet \<Rightarrow> db \<Rightarrow> error + db" where
  "refundBet ib s =
     (case ib of (bet_id, bet) \<Rightarrow>
        await (user_update (b_userId bet)
                 (\<lambda>u. u\<lparr>coinBalance := coinBalance u + b_amount bet\<rparr>) s) (\<lambda>(_, s).
        await (bet_update bet_id (\<lambda>b. b\<lparr>b_status := REFUNDED\<rparr>) s) (\<lambda>s.
        transaction_create
          \<lparr>t_userId = b_userId bet, t_type = BET_REFUNDED, t_amount = b_amount bet,
           t_balanceBefore = None, t_balanceAfter = None,
           t_betId = Some bet_id\<rparr> s)))"

definition cancel_tx :: "nat \<Rightarrow> db \<Rightarrow> error + db" where
  "cancel_tx predictionId s =
     await (forEach refundBet (bet_findMany (\<lambda>b. b_predictionId b = predictionId) s) s) (\<lambda>s.
     prediction_update predictionId (\<lambda>p. p\<lparr>p_status := CANCELLED\<rparr>) s)"

definition cancel :: "nat \<Rightarrow> db \<Rightarrow> error option \<times> db" where
  "cancel predictionId s = prisma_transaction (cancel_tx predictionId) s"

section \<open>Sequences of operations\<close>

datatype operation =
  PlaceBet nat nat nat nat int number
  | Resolve nat nat nat
  | Cancel nat

fun apply_op :: "int \<Rightarrow> operation \<Rightarrow> db \<Rightarrow> db" where
  "apply_op maxBet (PlaceBet now userId predictionId optionId betAmount currentOdds) s =
     snd (placeBet now maxBet userId predictionId optionId betAmount currentOdds s)"
| "apply_op maxBet (Resolve now predictionId correctOptionId') s =
     snd (resolve now predictionId correctOptionId' s)"
| "apply_op maxBet (Cancel predictionId) s = snd (cancel predictionId s)"

definition run :: "int \<Rightarrow> operation list \<Rightarrow> db \<Rightarrow> db" where
  "run maxBet ops s = fold (apply_op maxBet) ops s"

section \<open>Properties of a database\<close>

text \<open>
  \<open>staked i bs\<close> is what the bets \<open>bs\<close> put on option \<open>i\<close>; \<open>optionsTotal p s\<close> is what
  the options of prediction \<open>p\<close> hold together.
\<close>

definition staked :: "nat \<Rightarrow> Bet list \<Rightarrow> int" where
  "staked optionId bs = sum_list (map b_amount (filter (\<lambda>b. b_optionId b = optionId) bs))"

definition optionsTotal :: "nat \<Rightarrow> db \<Rightarrow> int" where
  "optionsTotal predictionId s =
     sum_list (map totalCoins (filter (\<lambda>opt. o_predictionId opt = predictionId) (options s)))"

definition nonneg_balances :: "db \<Rightarrow> bool" where
  "nonneg_balances s = list_all (\<lambda>u. 0 \<le> coinBalance u) (users s)"

definition stakes_consistent :: "db \<Rightarrow> bool" where
  "stakes_consistent s =
     (list_all (\<lambda>b. 0 < b_amount b) (bets s)
      \<and> list_all (\<lambda>i. staked i (bets s) = totalCoins (options s ! i)) [0..<length (options s)])"

definition wf :: "db \<Rightarrow> bool" where
  "wf s = (nonneg_balances s \<and> stakes_consistent s
           \<and> list_all (\<lambda>p. 0 \<le> totalPool p) (predictions s))"

definition pool_consistent :: "db \<Rightarrow> bool" where
  "pool_consistent s =
     list_all (\<lambda>p. optionsTotal p s = totalPool (predictions s ! p)) [0..<length (predictions s)]"

text \<open>
  \<open>wagers s\<close> is what the bets of \<open>s\<close> stake and where; \<open>frame s t\<close> says that \<open>t\<close> has
  the wagers, the options and the pools of \<open>s\<close>.
\<close>

definition wagers :: "db \<Rightarrow> (nat \<times> nat \<times> int) list" where
  "wagers s = map (\<lambda>b. (b_predictionId b, b_optionId b, b_amount b)) (bets s)"

definition frame :: "db \<Rightarrow> db \<Rightarrow> bool" where
  "frame s t = (wagers t = wagers s \<and> options t = options s
     \<and> map totalPool (predictions t) = map totalPool (predictions s))"

definition winners :: "nat \<Rightarrow> nat \<Rightarrow> db \<Rightarrow> Bet list" where
  "winners predictionId correctOptionId' s =
     filter (\<lambda>b. b_predictionId b = predictionId \<and> b_optionId b = correctOptionId') (bets s)"

definition totalCoinBalance :: "db \<Rightarrow> int" where
  "totalCoinBalance s = sum_list (map coinBalance (users s))"

subsection \<open>The ledger\<close>

definition entry_ok :: "Transaction \<Rightarrow> bool" where
  "entry_ok t =
     (case (t_balanceBefore t, t_balanceAfter t) of
        (Some before, Some after) \<Rightarrow> after = before + t_amount t
      | _ \<Rightarrow> False)"

definition replay :: "nat \<Rightarrow> Transaction list \<Rightarrow> int" where
  "replay userId txs = sum_list (map t_amount (filter (\<lambda>t. t_userId t = userId) txs))"

definition ledger_consistent :: "db \<Rightarrow> bool" where
  "ledger_consistent s =
     (list_all entry_ok (transactions s)
      \<and> list_all (\<lambda>i. replay i (transactions s) = coinBalance (users s ! i))
           [0..<length (users s)])"

section \<open>Example databases\<close>

text \<open>
  Three users with the default balance of the schema (1000 coins, granted by an
  \<^verbatim>\<open>INITIAL_BALANCE\<close> entry); user 0 has created prediction 0 with the options 0 and 1.
  In \<open>scenarioA\<close> user 1 has bet 100 on option 0 and user 2 has bet 300 on option 1
  (scenario A of the specification); in \<open>market_11_4\<close> the bets are 11 and 4. In
  \<open>market_0_300\<close> only user 2 has bet, 300 coins on option 1. In \<open>scenarioB\<close> user 1
  holds 500 coins (scenario B).
\<close>

definition newUser :: User where
  "newUser = \<lparr>coinBalance = 1000, u_totalBets = 0, totalWins = 0, totalLosses = 0\<rparr>"

definition initialBalance :: "nat \<Rightarrow> Transaction" where
  "initialBalance userId =
     \<lparr>t_userId = userId, t_type = INITIAL_BALANCE, t_amount = 1000,
      t_balanceBefore = Some 0, t_balanceAfter = Some 1000, t_betId = None\<rparr>"

definition market0 :: db where
  "market0 =
     \<lparr>users = [newUser, newUser, newUser],
      predictions =
        [\<lparr>creatorId = 0, endDate = 100, p_resolvedAt = None, p_status = ACTIVE,
          correctOptionId = None, totalPool = 0, p_totalBets = 0\<rparr>],
      options =
        [\<lparr>o_predictionId = 0, o_totalBets = 0, totalCoins = 0\<rparr>,
         \<lparr>o_predictionId = 0, o_totalBets = 0, totalCoins = 0\<rparr>],
      bets = [],
      transactions = [initialBalance 0, initialBalance 1, initialBalance 2],
      notifications = []\<rparr>"

definition scenarioB :: db where
  "scenarioB = market0\<lparr>users := [newUser, newUser\<lparr>coinBalance := 500\<rparr>, newUser]\<rparr>"

definition scenarioA :: db where
  "scenarioA = run 1000 [PlaceBet 1 1 0 0 100 (Fin 1), PlaceBet 2 2 0 1 300 (Fin 4)] market0"

definition market_0_300 :: db where
  "market_0_300 = run 1000 [PlaceBet 2 2 0 1 300 (Fin 1)] market0"

definition market_11_4 :: db where
  "market_11_4 = run 1000 [PlaceBet 1 1 0 0 11 (Fin 1), PlaceBet 2 2 0 1 4 (Fin 4)] market0"

section \<open>Rounding to a double\<close>

text \<open>\<open>exponent\<close> is the binary exponent: \<open>2 powi exponent x \<le> x < 2 powi (exponent x + 1)\<close>.\<close>

lemma round_half_even_upper: "of_int (round_half_even y) \<le> y + 1 / 2"
  unfolding round_half_even_def Let_def by (auto; linarith)

lemma round_half_even_nonneg: "0 \<le> y \<Longrightarrow> 0 \<le> round_half_even y"
  unfolding round_half_even_def Let_def by (auto; linarith)

lemma round_half_even_of_int: "round_half_even (of_int n) = n"
  unfolding round_half_even_def Let_def by simp

lemma exponent_lower:
  assumes "0 < x"
  shows "2 powi (exponent x) \<le> x"
proof -
  obtain p q where pq: "quotient_of x = (p, q)" by (cases "quotient_of x")
  then have q: "0 < q" and x: "x = of_int p / of_int q"
    using quotient_of_denom_pos quotient_of_div by auto
  from assms x q have p: "0 < p"
    by (simp add: zero_less_divide_iff)
  let ?d = "bitlen p - bitlen q"
  show ?thesis
  proof (cases "2 powi ?d \<le> x")
    case True
    then show ?thesis by (simp add: exponent_def pq)
  next
    case False
    then have e: "exponent x = ?d - 1" by (simp add: exponent_def pq)
    have bp: "1 \<le> bitlen p" and bq: "1 \<le> bitlen q"
      using p q bitlen_eq_zero_iff[of p] bitlen_eq_zero_iff[of q]
        bitlen_nonneg[of p] bitlen_nonneg[of q]
      by linarith+
    have "(2::int) ^ nat (bitlen p - 1) \<le> p" using bitlen_bounds[OF p] by simp
    then have "(of_int ((2::int) ^ nat (bitlen p - 1)) :: rat) \<le> of_int p"
      by (simp only: of_int_le_iff)
    then have lo: "(2::rat) ^ nat (bitlen p - 1) \<le> of_int p" by simp
    have "q < (2::int) ^ nat (bitlen q)" using bitlen_bounds[OF q] by simp
    then have "(of_int q :: rat) < of_int ((2::int) ^ nat (bitlen q))"
      by (simp only: of_int_less_iff)
    then have hi: "(of_int q :: rat) < 2 ^ nat (bitlen q)" by simp
    have "(2::rat) powi (?d - 1) = 2 powi (bitlen p - 1) / 2 powi (bitlen q)"
      by (simp add: power_int_diff)
    also have "\<dots> = 2 ^ nat (bitlen p - 1) / 2 ^ nat (bitlen q)"
      using bp bq by (simp add: power_int_def)
    also have "\<dots> \<le> of_int p / of_int q"
      using lo hi q p by (intro frac_le) auto
    finally show ?thesis using e x by simp
  qed
qed

lemma exponent_upper:
  assumes "0 < x"
  shows "x < 2 powi (exponent x + 1)"
proof -
  obtain p q where pq: "quotient_of x = (p, q)" by (cases "quotient_of x")
  then have q: "0 < q" and x: "x = of_int p / of_int q"
    using quotient_of_denom_pos quotient_of_div by auto
  from assms x q have p: "0 < p"
    by (simp add: zero_less_divide_iff)
  let ?d = "bitlen p - bitlen q"
  show ?thesis
  proof (cases "2 powi ?d \<le> x")
    case False
    then show ?thesis by (simp add: exponent_def pq)
  next
    case True
    then have e: "exponent x = ?d" by (simp add: exponent_def pq)
    have bp: "1 \<le> bitlen p" and bq: "1 \<le> bitlen q"
      using p q bitlen_eq_zero_iff[of p] bitlen_eq_zero_iff[of q]
        bitlen_nonneg[of p] bitlen_nonneg[of q]
      by linarith+
    have "p < (2::int) ^ nat (bitlen p)" using bitlen_bounds[OF p] by simp
    then have "(of_int p :: rat) < of_int ((2::int) ^ nat (bitlen p))"
      by (simp only: of_int_less_iff)
    then have hi: "(of_int p :: rat) < 2 ^ nat (bitlen p)" by simp
    have "(2::int) ^ nat (bitlen q - 1) \<le> q" using bitlen_bounds[OF q] by simp
    then have "(of_int ((2::int) ^ nat (bitlen q - 1)) :: rat) \<le> of_int q"
      by (simp only: of_int_le_iff)
    then have lo: "(2::rat) ^ nat (bitlen q - 1) \<le> of_int q" by simp
    have "of_int p / of_int q < (2::rat) ^ nat (bitlen p) / 2 ^ nat (bitlen q - 1)"
      using lo hi q p by (intro frac_less) auto
    also have "\<dots> = 2 powi (bitlen p) / 2 powi (bitlen q - 1)"
      using bp bq by (simp add: power_int_def)
    also have "\<dots> = 2 powi (?d + 1)"
      by (simp add: power_int_diff power_int_add)
    finally show ?thesis using e x by simp
  qed
qed

lemma fl_nonneg: "0 \<le> x \<Longrightarrow> 0 \<le> fl x"
  unfolding fl_def Let_def
  by (auto intro!: mult_nonneg_nonneg round_half_even_nonneg divide_nonneg_nonneg simp: sgn_if)

text \<open>The relative error of rounding is at most \<open>2 powi -53\<close>.\<close>

lemma fl_upper:
  assumes "0 \<le> x"
  shows "fl x \<le> x * (1 + 1 / 2 ^ 53)"
proof (cases "x = 0")
  case True
  then show ?thesis by (simp add: fl_def)
next
  case False
  with assms have x: "0 < x" by simp
  define s :: rat where "s = 2 powi (exponent x - 52)"
  have s: "0 < s" by (simp add: s_def)
  have flx: "fl x = of_int (round_half_even (x / s)) * s"
    using x by (simp add: fl_def s_def Let_def)
  have "of_int (round_half_even (x / s)) * s \<le> (x / s + 1 / 2) * s"
    using round_half_even_upper[of "x / s"] s by (simp add: mult_right_mono)
  also have "\<dots> = x + s / 2" using s by (simp add: field_simps)
  also have "s / 2 = 2 powi (exponent x) / 2 ^ 53"
    by (simp add: s_def power_int_diff)
  also have "x + 2 powi (exponent x) / 2 ^ 53 \<le> x + x / 2 ^ 53"
    using exponent_lower[OF x] by (simp add: divide_right_mono)
  finally show ?thesis using flx by (simp add: field_simps)
qed

text \<open>An integer below \<open>2 ^ 53\<close> is a double.\<close>

lemma fl_of_int:
  assumes "0 \<le> n" "n < 2 ^ 53"
  shows "fl (of_int n) = of_int n"
proof (cases "n = 0")
  case True
  then show ?thesis by (simp add: fl_def)
next
  case False
  with assms have n: "0 < n" by simp
  define e where "e = exponent (of_int n)"
  have "(2::rat) powi e \<le> of_int n"
    unfolding e_def using n by (intro exponent_lower) simp
  also have "(of_int n :: rat) < of_int (2 ^ 53)"
    using assms(2) by (simp only: of_int_less_iff)
  finally have "(2::rat) powi e < 2 powi 53" by simp
  then have e: "e < 53" by (rule power_int_le_imp_less_exp[rotated]) simp_all
  define k where "k = nat (52 - e)"
  have s: "(2::rat) powi (e - 52) = 1 / 2 ^ k"
    using e by (simp add: k_def power_int_def field_simps)
  have "of_int n / (2::rat) powi (e - 52) = of_int (n * 2 ^ k)"
    by (simp add: s)
  then have "round_half_even (of_int n / 2 powi (e - 52)) = n * 2 ^ k"
    by (simp only: round_half_even_of_int)
  then show ?thesis
    using n by (simp add: fl_def Let_def e_def[symmetric] s)
qed

lemma Number_exact: "0 \<le> n \<Longrightarrow> n < 2 ^ 31 \<Longrightarrow> Number n = Fin (of_int n)"
  by (simp add: Number_def fl_of_int)

lemma prismaInt_of_int: "int32 n \<Longrightarrow> prismaInt (Fin (of_int n)) = Inr n"
  by (simp add: prismaInt_def)

lemma payout_floor_nonneg:
  assumes "0 \<le> a" "0 \<le> P" "0 < C"
  shows "0 \<le> \<lfloor>fl (of_int a * fl (of_int P / of_int C))\<rfloor>"
proof -
  from assms have "(0::rat) \<le> of_int a" by simp
  moreover have "0 \<le> fl (of_int P / of_int C)"
    using assms by (intro fl_nonneg) simp
  ultimately have "0 \<le> of_int a * fl (of_int P / of_int C)"
    by (rule mult_nonneg_nonneg)
  then have "0 \<le> fl (of_int a * fl (of_int P / of_int C))"
    by (rule fl_nonneg)
  then show ?thesis by simp
qed

lemma prismaInt_payout:
  assumes "0 \<le> b_amount bet" "b_amount bet < 2 ^ 31" "0 \<le> P" "P < 2 ^ 31" "0 < C" "C < 2 ^ 31"
    and "\<lfloor>fl (of_int (b_amount bet) * fl (of_int P / of_int C))\<rfloor> < 2 ^ 31"
  shows "prismaInt (payout bet (odds P C))
       = Inr \<lfloor>fl (of_int (b_amount bet) * fl (of_int P / of_int C))\<rfloor>"
proof -
  have "int32 \<lfloor>fl (of_int (b_amount bet) * fl (of_int P / of_int C))\<rfloor>"
    using payout_floor_nonneg[OF assms(1,3,5)] assms(7) by (simp add: int32_def)
  then show ?thesis
    using assms by (simp add: payout_def odds_def Number_exact prismaInt_of_int)
qed

lemma prismaInt_creatorReward_nonneg:
  assumes "0 \<le> P" and "prismaInt (creatorReward P) = Inr n"
  shows "0 \<le> n"
proof -
  have "0 \<le> fl (fl (of_int P) * fl (1 / 20))"
    using assms(1) by (simp add: fl_nonneg)
  with assms(2) show ?thesis
    by (auto simp: creatorReward_def Number_def prismaInt_def split: if_splits)
qed

text \<open>The reward is at most the pool: three roundings cannot make up a factor of 20.\<close>

lemma prismaInt_creatorReward_le:
  assumes P: "0 \<le> P" and r: "prismaInt (creatorReward P) = Inr n"
  shows "n \<le> P"
proof -
  define u :: rat where "u = 1 + 1 / 2 ^ 53"
  define x :: rat where "x = fl (of_int P) * fl (1 / 20)"
  have u0: "0 \<le> u" by (simp add: u_def)
  have P0: "(0::rat) \<le> of_int P" using P by simp
  have a0: "0 \<le> fl (of_int P)" using P0 by (rule fl_nonneg)
  have b0: "0 \<le> fl (1 / 20)" by (rule fl_nonneg) simp
  have a: "fl (of_int P) \<le> of_int P * u" unfolding u_def using P0 by (rule fl_upper)
  have b: "fl (1 / 20) \<le> 1 / 20 * u" unfolding u_def by (rule fl_upper) simp
  have x0: "0 \<le> x" unfolding x_def using a0 b0 by (rule mult_nonneg_nonneg)
  have "x \<le> (of_int P * u) * (1 / 20 * u)"
    unfolding x_def using a b a0 b0 by (rule mult_mono')
  moreover have "fl x \<le> x * u" unfolding u_def using x0 by (rule fl_upper)
  ultimately have "fl x \<le> (of_int P * u) * (1 / 20 * u) * u"
    using u0 by (meson mult_right_mono order_trans)
  also have "\<dots> = of_int P * (u * u * u / 20)" by simp
  also have "\<dots> \<le> of_int P * 1"
    using P0 by (intro mult_left_mono) (simp_all add: u_def)
  finally have "fl x \<le> of_int P" by simp
  then have "\<lfloor>fl x\<rfloor> \<le> P" by (simp add: floor_le_iff)
  moreover from r have "n = \<lfloor>fl x\<rfloor>"
    by (auto simp: creatorReward_def Number_def prismaInt_def x_def split: if_splits)
  ultimately show ?thesis by simp
qed

text \<open>
  Floors of rounded products against the exact total: with \<open>u = 1 + 2 powi -53\<close>, the
  payouts of amounts that sum to at most \<open>C\<close> sum to at most \<open>P * u * u\<close>, which is
  below \<open>P + 1\<close> for a pool in the \<^verbatim>\<open>Int\<close> range.
\<close>

lemma of_int_sum_list_map:
  "(of_int (sum_list (map f xs)) :: rat) = sum_list (map (\<lambda>x. of_int (f x)) xs)"
  by (induction xs) simp_all

lemma sum_list_map_times:
  "sum_list (map (\<lambda>x. of_int x * c) xs) = (of_int (sum_list xs) :: rat) * c"
  by (induction xs) (simp_all add: algebra_simps)

lemma payouts_le_pool:
  assumes P: "0 \<le> P" "P < 2 ^ 31" and C: "0 < C"
    and as: "\<forall>a\<in>set as. 0 \<le> a" and sum: "sum_list as \<le> C"
  shows "sum_list (map (\<lambda>a. \<lfloor>fl (of_int a * fl (of_int P / of_int C))\<rfloor>) as) \<le> P"
proof -
  define u :: rat where "u = 1 + 1 / 2 ^ 53"
  define q :: rat where "q = fl (of_int P / of_int C)"
  have q0: "0 \<le> q" unfolding q_def using P C by (intro fl_nonneg) simp
  have qle: "q \<le> of_int P / of_int C * u"
    unfolding q_def u_def using P C by (intro fl_upper) simp
  have u0: "0 \<le> u" by (simp add: u_def)
  have each: "of_int \<lfloor>fl (of_int a * q)\<rfloor> \<le> of_int a * (q * u)" if "a \<in> set as" for a
  proof -
    from that as have "0 \<le> (of_int a :: rat) * q" using q0 by simp
    from fl_upper[OF this] have "fl (of_int a * q) \<le> of_int a * q * u" by (simp add: u_def)
    moreover have "(of_int \<lfloor>fl (of_int a * q)\<rfloor> :: rat) \<le> fl (of_int a * q)"
      by (rule of_int_floor_le)
    ultimately have "(of_int \<lfloor>fl (of_int a * q)\<rfloor> :: rat) \<le> of_int a * q * u"
      by (rule order_trans[rotated])
    then show ?thesis by (simp only: mult.assoc)
  qed
  have "(of_int (sum_list (map (\<lambda>a. \<lfloor>fl (of_int a * q)\<rfloor>) as)) :: rat)
      = sum_list (map (\<lambda>a. of_int \<lfloor>fl (of_int a * q)\<rfloor>) as)"
    by (rule of_int_sum_list_map)
  also have "\<dots> \<le> sum_list (map (\<lambda>a. of_int a * (q * u)) as)"
    by (rule sum_list_mono) (rule each)
  also have "\<dots> = of_int (sum_list as) * (q * u)"
    by (rule sum_list_map_times)
  also have "\<dots> \<le> of_int C * (q * u)"
    using sum q0 u0 by (intro mult_right_mono) simp_all
  also have "\<dots> \<le> of_int C * (of_int P / of_int C * u * u)"
    using qle C u0 by (intro mult_left_mono mult_right_mono) simp_all
  also have "\<dots> = of_int P * (u * u)" using C by simp
  also have "\<dots> < of_int P + 1"
  proof -
    have "(of_int P :: rat) < of_int (2 ^ 31)" using P(2) by (simp only: of_int_less_iff)
    then have "(of_int P :: rat) < 2 ^ 31" by simp
    moreover have "u * u - 1 \<le> 1 / 2 ^ 51" by (simp add: u_def)
    moreover have "0 \<le> u * u - 1" by (simp add: u_def)
    ultimately have "of_int P * (u * u - 1) \<le> 2 ^ 31 * (1 / 2 ^ 51)"
      using P(1) by (intro mult_mono) simp_all
    also have "\<dots> < (1::rat)" by simp
    finally show ?thesis by (simp add: algebra_simps)
  qed
  finally have "(of_int (sum_list (map (\<lambda>a. \<lfloor>fl (of_int a * q)\<rfloor>) as)) :: rat) < of_int (P + 1)"
    by simp
  then have "sum_list (map (\<lambda>a. \<lfloor>fl (of_int a * q)\<rfloor>) as) < P + 1"
    by (simp only: of_int_less_iff)
  then show ?thesis by (simp add: q_def)
qed

section \<open>The client's calls\<close>

lemma awaitE:
  assumes "await m k = Inr y"
  obtains x where "m = Inr x" and "k x = Inr y"
  using assms by (auto simp: await_def split: sum.splits)

text \<open>A property that every step of a loop keeps holds after the loop.\<close>

lemma forEach_preserves:
  "forEach f xs s = Inr s' \<Longrightarrow> P s
   \<Longrightarrow> (\<And>x t t'. x \<in> set xs \<Longrightarrow> P t \<Longrightarrow> f x t = Inr t' \<Longrightarrow> P t') \<Longrightarrow> P s'"
proof (induction xs arbitrary: s)
  case Nil
  then show ?case by simp
next
  case (Cons x xs)
  from Cons.prems(1) obtain t where t: "f x s = Inr t" and rest: "forEach f xs t = Inr s'"
    by (auto elim: awaitE)
  have "P t" using Cons.prems(3)[OF _ Cons.prems(2) t] by simp
  show ?case
    by (rule Cons.IH[OF rest \<open>P t\<close>]) (auto intro: Cons.prems(3))
qed

lemma user_updateE:
  assumes "user_update i f s = Inr (u, s')"
  obtains "i < length (users s)" and "u = f (users s ! i)"
    and "s' = s\<lparr>users := (users s)[i := f (users s ! i)]\<rparr>"
  using assms by (auto simp: user_update_def Let_def split: if_splits)

lemma bet_updateE:
  assumes "bet_update i f s = Inr s'"
  obtains "i < length (bets s)" and "s' = s\<lparr>bets := (bets s)[i := f (bets s ! i)]\<rparr>"
  using assms by (auto simp: bet_update_def Let_def split: if_splits)

lemma prediction_updateE:
  assumes "prediction_update i f s = Inr s'"
  obtains "i < length (predictions s)"
    and "s' = s\<lparr>predictions := (predictions s)[i := f (predictions s ! i)]\<rparr>"
  using assms by (auto simp: prediction_update_def Let_def split: if_splits)

lemma predictionOption_updateE:
  assumes "predictionOption_update i f s = Inr s'"
  obtains "i < length (options s)"
    and "s' = s\<lparr>options := (options s)[i := f (options s ! i)]\<rparr>"
  using assms by (auto simp: predictionOption_update_def Let_def split: if_splits)

lemma bet_createE:
  assumes "bet_create row s = Inr (i, s')"
  obtains "i = length (bets s)" and "s' = s\<lparr>bets := bets s @ [row]\<rparr>"
  using assms by (auto simp: bet_create_def split: if_splits)

lemma notification_createE:
  assumes "notification_create row s = Inr s'"
  obtains "s' = s\<lparr>notifications := notifications s @ [row]\<rparr>"
  using assms by (auto simp: notification_create_def split: if_splits)

lemma map_update_same: "f y = f (xs ! j) \<Longrightarrow> map f (xs[j := y]) = map f xs"
  by (metis list_update_id map_update)

lemma list_all_update:
  "list_all P xs \<Longrightarrow> P y \<Longrightarrow> list_all P (xs[j := y])"
  by (auto simp: list_all_iff dest!: set_update_subset_insert[THEN subsetD])

lemma filter_enumerate_snd:
  "map snd (filter (\<lambda>ib. Q (snd ib)) (enumerate n xs)) = filter Q xs"
  by (induction xs arbitrary: n) simp_all

lemma sum_list_map_update:
  fixes f :: "'a \<Rightarrow> int"
  shows "i < length xs \<Longrightarrow> sum_list (map f (xs[i := y])) = sum_list (map f xs) + f y - f (xs ! i)"
proof (induction xs arbitrary: i)
  case Nil
  then show ?case by simp
next
  case (Cons x xs)
  then show ?case by (cases i) auto
qed

text \<open>
  \<^verbatim>\<open>transaction.create\<close> returns only for a row with both balances and a \<^verbatim>\<open>betId\<close> that
  no row of the table carries.
\<close>

lemma transaction_create_Inr:
  assumes "transaction_create row s = Inr s'"
  shows "t_balanceBefore row \<noteq> None \<and> t_balanceAfter row \<noteq> None
    \<and> (case t_betId row of None \<Rightarrow> True | Some b \<Rightarrow> \<not> betId_taken b (transactions s))
    \<and> s' = s\<lparr>transactions := transactions s @ [row]\<rparr>"
  using assms
  by (auto simp: transaction_create_def schema_transaction_create_def await_def
      split: if_splits option.splits)

lemma transaction_create_no_balance:
  "t_balanceBefore row = None \<Longrightarrow> transaction_create row s = Inl ValidationError"
  by (simp add: transaction_create_def schema_transaction_create_def await_def)

lemma forEach_Cons_throws:
  assumes "\<And>t. \<exists>e. f x t = Inl e"
  shows "\<exists>e. forEach f (x # xs) s = Inl e"
  using assms[of s] by (auto simp: await_def)

section \<open>What a committed script has done\<close>

lemma placeBet_tx_Inr:
  assumes "placeBet_tx userId predictionId optionId betAmount currentOdds s = Inr s'"
  shows "userId < length (users s) \<and> predictionId < length (predictions s)
     \<and> optionId < length (options s)
     \<and> users s' = (users s)[userId := (users s ! userId)
           \<lparr>coinBalance := coinBalance (users s ! userId) - betAmount,
            u_totalBets := u_totalBets (users s ! userId) + 1\<rparr>]
     \<and> bets s' = bets s @
           [\<lparr>b_userId = userId, b_predictionId = predictionId, b_optionId = optionId,
             b_amount = betAmount, b_oddsAtBet = currentOdds, b_status = PENDING,
             b_payout = 0, b_resolvedAt = None\<rparr>]
     \<and> predictions s' = (predictions s)[predictionId := (predictions s ! predictionId)
           \<lparr>totalPool := totalPool (predictions s ! predictionId) + betAmount,
            p_totalBets := p_totalBets (predictions s ! predictionId) + 1\<rparr>]
     \<and> options s' = (options s)[optionId := (options s ! optionId)
           \<lparr>totalCoins := totalCoins (options s ! optionId) + betAmount,
            o_totalBets := o_totalBets (options s ! optionId) + 1\<rparr>]
     \<and> transactions s' = transactions s @
           [\<lparr>t_userId = userId, t_type = BET_PLACED, t_amount = - betAmount,
             t_balanceBefore = Some (coinBalance (users s ! userId)),
             t_balanceAfter = Some (coinBalance (users s ! userId) - betAmount),
             t_betId = Some (length (bets s))\<rparr>]
     \<and> notifications s' = notifications s"
  using assms
  unfolding placeBet_tx_def
  by (auto elim!: awaitE user_updateE bet_createE prediction_updateE predictionOption_updateE
      dest!: transaction_create_Inr)

lemma markLoser_Inr:
  assumes "markLoser now predictionId (bet_id, bet) s = Inr s'"
  shows "b_userId bet < length (users s) \<and> bet_id < length (bets s)
    \<and> users s' = (users s)[b_userId bet := (users s ! b_userId bet)
        \<lparr>totalLosses := totalLosses (users s ! b_userId bet) + 1\<rparr>]
    \<and> bets s' = (bets s)[bet_id := (bets s ! bet_id)
        \<lparr>b_status := LOST, b_resolvedAt := Some now\<rparr>]
    \<and> predictions s' = predictions s \<and> options s' = options s
    \<and> transactions s' = transactions s"
  using assms
  unfolding markLoser_def
  by (auto elim!: awaitE user_updateE bet_updateE notification_createE)

text \<open>
  A step of the loop over the winning bets throws, whatever the bet: when its two
  updates have gone through, the \<^verbatim>\<open>BET_WON\<close> entry is refused for its missing
  balances. So does a step of the refund loop.
\<close>

lemma payWinner_throws: "\<exists>e. payWinner now predictionId oddsForWinners ib s = Inl e"
proof (cases "payWinner now predictionId oddsForWinners ib s")
  case (Inl e)
  then show ?thesis by blast
next
  case (Inr s')
  obtain bet_id bet where ib: "ib = (bet_id, bet)" by (cases ib)
  from Inr[unfolded ib payWinner_def] have False
    by (auto elim!: awaitE simp: transaction_create_no_balance)
  then show ?thesis ..
qed

lemma refundBet_throws: "\<exists>e. refundBet ib s = Inl e"
proof (cases "refundBet ib s")
  case (Inl e)
  then show ?thesis by blast
next
  case (Inr s')
  obtain bet_id bet where ib: "ib = (bet_id, bet)" by (cases ib)
  from Inr[unfolded ib refundBet_def] have False
    by (auto elim!: awaitE simp: transaction_create_no_balance)
  then show ?thesis ..
qed

text \<open>
  The stages of a resolution that commits: no bet is on the correct option, the bets of
  the prediction are marked as lost, and the creator is credited.
\<close>

lemma resolve_tx_Inr:
  assumes "resolve_tx now p oid s = Inr s'"
  obtains s1 s3 reward where
    "prediction_update p
       (\<lambda>q. q\<lparr>p_status := RESOLVED, correctOptionId := Some oid, p_resolvedAt := Some now\<rparr>) s
     = Inr s1"
    "oid < length (options s)"
    "winners p oid s = []"
    "forEach (markLoser now p)
       (filter (\<lambda>ib. b_predictionId (snd ib) = p \<and> b_optionId (snd ib) \<noteq> oid)
               (enumerate 0 (bets s))) s1 = Inr s3"
    "prismaInt (creatorReward (totalPool (predictions s ! p))) = Inr reward"
    "creatorId (predictions s ! p) < length (users s3)"
    "s' = s3\<lparr>users := (users s3)[creatorId (predictions s ! p) :=
        (users s3 ! creatorId (predictions s ! p))
        \<lparr>coinBalance := coinBalance (users s3 ! creatorId (predictions s ! p)) + reward\<rparr>]\<rparr>"
proof -
  let ?upd = "\<lambda>q. q\<lparr>p_status := RESOLVED, correctOptionId := Some oid, p_resolvedAt := Some now\<rparr>"
  let ?W = "filter (\<lambda>ib. b_predictionId (snd ib) = p \<and> b_optionId (snd ib) = oid)
               (enumerate 0 (bets s))"
  from assms[unfolded resolve_tx_def] obtain s1 where
    s1: "prediction_update p ?upd s = Inr s1"
    and rest: "(let prediction = predictions s1 ! p;
         allBets = bet_findMany (\<lambda>b. b_predictionId b = p) s1;
         winningBets = filter (\<lambda>ib. b_optionId (snd ib) = oid) allBets
     in case predictionOption_findUnique oid s1 of
          None \<Rightarrow> Inl TypeError
        | Some correctOption \<Rightarrow>
            let oddsForWinners = odds (totalPool prediction) (totalCoins correctOption)
            in await (forEach (payWinner now p oddsForWinners) winningBets s1) (\<lambda>s.
               let losingBets = filter (\<lambda>ib. b_optionId (snd ib) \<noteq> oid) allBets
               in await (forEach (markLoser now p) losingBets s) (\<lambda>s.
                  await (prismaInt (creatorReward (totalPool prediction))) (\<lambda>reward.
                  await (user_update (creatorId prediction)
                           (\<lambda>u. u\<lparr>coinBalance := coinBalance u + reward\<rparr>) s) (\<lambda>(_, s).
                  Inr s))))) = Inr s'"
    by (rule awaitE)
  from s1 have p: "p < length (predictions s)"
    and e: "s1 = s\<lparr>predictions := (predictions s)[p := ?upd (predictions s ! p)]\<rparr>"
    by (auto elim: prediction_updateE)
  have pool: "totalPool (predictions s1 ! p) = totalPool (predictions s ! p)"
    and cr: "creatorId (predictions s1 ! p) = creatorId (predictions s ! p)"
    and b1: "bets s1 = bets s" and o1: "options s1 = options s"
    using p by (simp_all add: e)
  from rest obtain s2 s3 reward u where
    oid: "oid < length (options s)"
    and w: "forEach (payWinner now p (odds (totalPool (predictions s ! p))
                                         (totalCoins (options s ! oid)))) ?W s1 = Inr s2"
    and l: "forEach (markLoser now p)
       (filter (\<lambda>ib. b_predictionId (snd ib) = p \<and> b_optionId (snd ib) \<noteq> oid)
               (enumerate 0 (bets s))) s2 = Inr s3"
    and r: "prismaInt (creatorReward (totalPool (predictions s ! p))) = Inr reward"
    and c: "user_update (creatorId (predictions s ! p))
       (\<lambda>u. u\<lparr>coinBalance := coinBalance u + reward\<rparr>) s3 = Inr (u, s')"
    by (auto simp: Let_def predictionOption_findUnique_def bet_findMany_def pool cr b1 o1
        split: option.splits if_splits elim!: awaitE)
  have W: "?W = []"
  proof (cases ?W)
    case Nil
    then show ?thesis .
  next
    case (Cons x xs)
    from forEach_Cons_throws[of "payWinner now p (odds (totalPool (predictions s ! p))
        (totalCoins (options s ! oid)))" x xs s1, OF payWinner_throws] w Cons
    show ?thesis by simp
  qed
  with w have s2: "s2 = s1" by simp
  from W have "map snd ?W = []" by simp
  then have nw: "winners p oid s = []"
    using filter_enumerate_snd[of "\<lambda>b. b_predictionId b = p \<and> b_optionId b = oid" 0 "bets s"]
    by (simp add: winners_def)
  from s1 oid nw l[unfolded s2] r c show ?thesis
    by (auto elim!: user_updateE intro: that)
qed

text \<open>A cancellation that commits: the prediction has no bet, and its status is set.\<close>

lemma cancel_tx_Inr:
  assumes "cancel_tx p s = Inr s'"
  obtains "filter (\<lambda>b. b_predictionId b = p) (bets s) = []"
    "p < length (predictions s)"
    "s' = s\<lparr>predictions := (predictions s)[p := (predictions s ! p)\<lparr>p_status := CANCELLED\<rparr>]\<rparr>"
proof -
  let ?B = "filter (\<lambda>ib. b_predictionId (snd ib) = p) (enumerate 0 (bets s))"
  from assms obtain s1 where l: "forEach refundBet ?B s = Inr s1"
    and u: "prediction_update p (\<lambda>q. q\<lparr>p_status := CANCELLED\<rparr>) s1 = Inr s'"
    unfolding cancel_tx_def bet_findMany_def by (auto elim!: awaitE)
  have B: "?B = []"
  proof (cases ?B)
    case Nil
    then show ?thesis .
  next
    case (Cons x xs)
    from forEach_Cons_throws[of refundBet x xs s, OF refundBet_throws] l Cons
    show ?thesis by simp
  qed
  with l have s1: "s1 = s" by simp
  from B have "map snd ?B = []" by simp
  then have "filter (\<lambda>b. b_predictionId b = p) (bets s) = []"
    using filter_enumerate_snd[of "\<lambda>b. b_predictionId b = p" 0 "bets s"] by simp
  with u[unfolded s1] show ?thesis
    by (auto elim!: prediction_updateE intro: that)
qed

lemma resolve_None:
  "resolve now p oid s = (None, s') \<Longrightarrow> resolve_tx now p oid s = Inr s'"
  by (auto simp: resolve_def prisma_transaction_def split: sum.splits)

lemma resolve_Some:
  "resolve now p oid s = (Some e, s') \<Longrightarrow> s' = s"
  by (auto simp: resolve_def prisma_transaction_def split: sum.splits)

lemma sum_list_filter_conj_le:
  assumes "\<forall>x\<in>set xs. 0 \<le> f x"
  shows "sum_list (map f (filter (\<lambda>x. P x \<and> Q x) xs)) \<le> (sum_list (map f (filter Q xs)) :: int)"
  using assms by (induction xs) auto

lemma elem_le_sum_list:
  fixes as :: "int list"
  assumes "\<forall>a\<in>set as. 0 \<le> a" and "a \<in> set as"
  shows "a \<le> sum_list as"
  using assms
proof (induction as)
  case Nil
  then show ?case by simp
next
  case (Cons x xs)
  have "0 \<le> sum_list xs" using Cons.prems(1) by (intro sum_list_nonneg) simp
  with Cons show ?case by auto
qed

section \<open>What the scripts leave as it was\<close>

lemma wagers_bet_update:
  assumes "bets t' = (bets t)[i := b']"
    and "b_predictionId b' = b_predictionId (bets t ! i)"
    and "b_optionId b' = b_optionId (bets t ! i)"
    and "b_amount b' = b_amount (bets t ! i)"
  shows "wagers t' = wagers t"
  using assms by (simp add: wagers_def map_update_same)

lemma markLoser_frame:
  assumes "markLoser now p ib t = Inr t'" and "frame s t"
  shows "frame s t'"
proof -
  obtain bet_id bet where ib: "ib = (bet_id, bet)" by (cases ib)
  from markLoser_Inr[OF assms(1)[unfolded ib]]
  have bets: "bets t' = (bets t)[bet_id := (bets t ! bet_id)
        \<lparr>b_status := LOST, b_resolvedAt := Some now\<rparr>]"
    and rest: "predictions t' = predictions t" "options t' = options t"
    by simp_all
  have "wagers t' = wagers t"
    by (rule wagers_bet_update[OF bets]) simp_all
  with assms(2) rest show ?thesis by (simp add: frame_def)
qed

lemma resolve_tx_frame:
  assumes "resolve_tx now p oid s = Inr s'"
  shows "frame s s'"
  using assms
proof (rule resolve_tx_Inr)
  fix s1 s3 reward
  assume s1: "prediction_update p
       (\<lambda>q. q\<lparr>p_status := RESOLVED, correctOptionId := Some oid, p_resolvedAt := Some now\<rparr>) s
     = Inr s1"
    and l: "forEach (markLoser now p)
       (filter (\<lambda>ib. b_predictionId (snd ib) = p \<and> b_optionId (snd ib) \<noteq> oid)
               (enumerate 0 (bets s))) s1 = Inr s3"
    and s': "s' = s3\<lparr>users := (users s3)[creatorId (predictions s ! p) :=
        (users s3 ! creatorId (predictions s ! p))
        \<lparr>coinBalance := coinBalance (users s3 ! creatorId (predictions s ! p)) + reward\<rparr>]\<rparr>"
  from s1 have f1: "frame s s1"
    by (elim prediction_updateE) (simp add: frame_def wagers_def map_update_same)
  have f3: "frame s s3"
    by (rule forEach_preserves[where P = "frame s", OF l f1]) (rule markLoser_frame)
  then show ?thesis by (simp add: frame_def wagers_def s')
qed

lemma cancel_tx_frame:
  assumes "cancel_tx p s = Inr s'"
  shows "frame s s'"
  using assms by (rule cancel_tx_Inr) (simp add: frame_def wagers_def map_update_same)

lemma winners_wagers:
  "winners p oid s = [] \<longleftrightarrow> (\<forall>w\<in>set (wagers s). \<not> (fst w = p \<and> fst (snd w) = oid))"
  by (auto simp: winners_def wagers_def filter_empty_conv)

lemma frame_pool:
  assumes "frame s t" and "p < length (predictions s)"
  shows "totalPool (predictions t ! p) = totalPool (predictions s ! p)"
proof -
  from assms(1) have m: "map totalPool (predictions t) = map totalPool (predictions s)"
    by (simp add: frame_def)
  then have "length (predictions t) = length (predictions s)"
    by (rule map_eq_imp_length_eq)
  with assms(2) have "map totalPool (predictions t) ! p = totalPool (predictions t ! p)"
    and "map totalPool (predictions s) ! p = totalPool (predictions s ! p)"
    by simp_all
  with m show ?thesis by simp
qed

section \<open>Well-formed databases\<close>

lemma staked_wagers:
  "staked i (bets s)
   = sum_list (map (\<lambda>w. snd (snd w)) (filter (\<lambda>w. fst (snd w) = i) (wagers s)))"
  by (simp add: staked_def wagers_def filter_map comp_def)

lemma amounts_wagers:
  "list_all (\<lambda>b. 0 < b_amount b) (bets s) = list_all (\<lambda>w. 0 < snd (snd w)) (wagers s)"
  by (simp add: wagers_def list_all_iff)

lemma stakes_consistent_frame:
  "wagers s' = wagers s \<Longrightarrow> options s' = options s
   \<Longrightarrow> stakes_consistent s' = stakes_consistent s"
  by (simp add: stakes_consistent_def staked_wagers amounts_wagers)

lemma pools_nonneg_frame:
  assumes "map totalPool (predictions s') = map totalPool (predictions s)"
  shows "list_all (\<lambda>p. 0 \<le> totalPool p) (predictions s')
       = list_all (\<lambda>p. 0 \<le> totalPool p) (predictions s)"
proof -
  have "list_all (\<lambda>p. 0 \<le> totalPool p) (predictions t)
      = list_all (\<lambda>x. 0 \<le> x) (map totalPool (predictions t))" for t
    by (simp add: list_all_iff)
  from this[of s'] this[of s] show ?thesis by (simp only: assms)
qed

lemma wf_frame:
  "frame s t \<Longrightarrow> nonneg_balances t \<Longrightarrow> wf s \<Longrightarrow> wf t"
  using stakes_consistent_frame[of t s] pools_nonneg_frame[of t s]
  by (simp add: wf_def frame_def)

lemma nonneg_balances_update:
  assumes "nonneg_balances t" and "users t' = (users t)[i := u]" and "0 \<le> coinBalance u"
  shows "nonneg_balances t'"
  using assms by (simp add: nonneg_balances_def list_all_update)

lemma nonneg_balances_nth:
  "nonneg_balances t \<Longrightarrow> i < length (users t) \<Longrightarrow> 0 \<le> coinBalance (users t ! i)"
  by (simp add: nonneg_balances_def list_all_iff)

lemma wf_amount_pos: "wf s \<Longrightarrow> b \<in> set (bets s) \<Longrightarrow> 0 < b_amount b"
  by (simp add: wf_def stakes_consistent_def list_all_iff)

lemma wf_pool_nonneg:
  "wf s \<Longrightarrow> p < length (predictions s) \<Longrightarrow> 0 \<le> totalPool (predictions s ! p)"
  by (simp add: wf_def list_all_iff)

lemma staked_nonneg: "list_all (\<lambda>b. 0 < b_amount b) bs \<Longrightarrow> 0 \<le> staked i bs"
  unfolding staked_def by (rule sum_list_nonneg) (force simp: list_all_iff intro: less_imp_le)

lemma wf_coins:
  "wf s \<Longrightarrow> i < length (options s) \<Longrightarrow> totalCoins (options s ! i) = staked i (bets s)"
  by (simp add: wf_def stakes_consistent_def list_all_iff)

lemma staked_snoc:
  "staked i (bs @ [b]) = staked i bs + (if b_optionId b = i then b_amount b else 0)"
  by (simp add: staked_def)

lemma markLoser_nonneg:
  assumes step: "markLoser now p ib t = Inr t'" and nn: "nonneg_balances t"
  shows "nonneg_balances t'"
proof -
  obtain bet_id bet where ib: "ib = (bet_id, bet)" by (cases ib)
  from markLoser_Inr[OF step[unfolded ib]]
  have u: "b_userId bet < length (users t)"
    and users: "users t' = (users t)[b_userId bet := (users t ! b_userId bet)
        \<lparr>totalLosses := totalLosses (users t ! b_userId bet) + 1\<rparr>]"
    by simp_all
  show ?thesis
    using nonneg_balances_nth[OF nn u]
    by (intro nonneg_balances_update[OF nn users]) simp
qed

lemma resolve_tx_nonneg:
  assumes res: "resolve_tx now p oid s = Inr s'" and wf: "wf s"
  shows "nonneg_balances s'"
  using res
proof (rule resolve_tx_Inr)
  fix s1 s3 reward
  let ?P = "totalPool (predictions s ! p)"
  assume s1: "prediction_update p
       (\<lambda>q. q\<lparr>p_status := RESOLVED, correctOptionId := Some oid, p_resolvedAt := Some now\<rparr>) s
     = Inr s1"
    and l: "forEach (markLoser now p)
       (filter (\<lambda>ib. b_predictionId (snd ib) = p \<and> b_optionId (snd ib) \<noteq> oid)
               (enumerate 0 (bets s))) s1 = Inr s3"
    and r: "prismaInt (creatorReward ?P) = Inr reward"
    and c: "creatorId (predictions s ! p) < length (users s3)"
    and s': "s' = s3\<lparr>users := (users s3)[creatorId (predictions s ! p) :=
        (users s3 ! creatorId (predictions s ! p))
        \<lparr>coinBalance := coinBalance (users s3 ! creatorId (predictions s ! p)) + reward\<rparr>]\<rparr>"
  from s1 have p: "p < length (predictions s)" and u1: "users s1 = users s"
    by (auto elim: prediction_updateE)
  have P0: "0 \<le> ?P" using wf p by (rule wf_pool_nonneg)
  have n1: "nonneg_balances s1" using wf u1 by (simp add: wf_def nonneg_balances_def)
  have n3: "nonneg_balances s3"
    by (rule forEach_preserves[where P = nonneg_balances, OF l n1]) (rule markLoser_nonneg)
  have "0 \<le> reward" using P0 r by (rule prismaInt_creatorReward_nonneg)
  moreover have us: "users s' = (users s3)[creatorId (predictions s ! p) :=
        (users s3 ! creatorId (predictions s ! p))
        \<lparr>coinBalance := coinBalance (users s3 ! creatorId (predictions s ! p)) + reward\<rparr>]"
    by (simp add: s')
  ultimately show ?thesis
    using nonneg_balances_nth[OF n3 c]
    by (intro nonneg_balances_update[OF n3 us]) simp
qed

lemma cancel_tx_nonneg:
  assumes res: "cancel_tx p s = Inr s'" and wf: "wf s"
  shows "nonneg_balances s'"
  using res wf by (elim cancel_tx_Inr) (simp add: wf_def nonneg_balances_def)

lemma wf_resolve: "wf s \<Longrightarrow> wf (snd (resolve now p oid s))"
  using resolve_tx_frame[of now p oid s] resolve_tx_nonneg[of now p oid s]
  by (auto simp: resolve_def prisma_transaction_def split: sum.splits intro: wf_frame)

lemma wf_cancel: "wf s \<Longrightarrow> wf (snd (cancel p s))"
  using cancel_tx_frame[of p s] cancel_tx_nonneg[of p s]
  by (auto simp: cancel_def prisma_transaction_def split: sum.splits intro: wf_frame)

lemma validateBet_None:
  assumes "validateBet now maxBet userId predictionId optionId betAmount s = None"
  shows "predictionId < length (predictions s) \<and> optionId < length (options s)
    \<and> o_predictionId (options s ! optionId) = predictionId
    \<and> p_status (predictions s ! predictionId) = ACTIVE
    \<and> now < endDate (predictions s ! predictionId)
    \<and> 0 < betAmount \<and> betAmount \<le> maxBet
    \<and> userId < length (users s) \<and> betAmount \<le> coinBalance (users s ! userId)"
  using assms by (simp add: validateBet_def split: if_splits)

lemma placeBet_tx_wf:
  assumes tx: "placeBet_tx userId predictionId optionId betAmount currentOdds s = Inr s'"
    and wf: "wf s" and pos: "0 < betAmount"
    and funds: "betAmount \<le> coinBalance (users s ! userId)"
  shows "wf s'"
proof -
  note r = placeBet_tx_Inr[OF tx]
  from r have u: "userId < length (users s)" and p: "predictionId < length (predictions s)"
    and o: "optionId < length (options s)" by simp_all
  from r have users: "users s' = (users s)[userId := (users s ! userId)
           \<lparr>coinBalance := coinBalance (users s ! userId) - betAmount,
            u_totalBets := u_totalBets (users s ! userId) + 1\<rparr>]" by simp
  from r have bets: "bets s' = bets s @
           [\<lparr>b_userId = userId, b_predictionId = predictionId, b_optionId = optionId,
             b_amount = betAmount, b_oddsAtBet = currentOdds, b_status = PENDING,
             b_payout = 0, b_resolvedAt = None\<rparr>]" by simp
  from r have preds: "predictions s' = (predictions s)[predictionId := (predictions s ! predictionId)
           \<lparr>totalPool := totalPool (predictions s ! predictionId) + betAmount,
            p_totalBets := p_totalBets (predictions s ! predictionId) + 1\<rparr>]" by simp
  from r have opts: "options s' = (options s)[optionId := (options s ! optionId)
           \<lparr>totalCoins := totalCoins (options s ! optionId) + betAmount,
            o_totalBets := o_totalBets (options s ! optionId) + 1\<rparr>]" by simp
  have nn: "nonneg_balances s" using wf by (simp add: wf_def)
  have "nonneg_balances s'"
    using funds by (intro nonneg_balances_update[OF nn users]) simp
  moreover have "list_all (\<lambda>b. 0 < b_amount b) (bets s')"
    using wf pos by (simp add: bets wf_def stakes_consistent_def)
  moreover have "list_all (\<lambda>i. staked i (bets s') = totalCoins (options s' ! i))
      [0..<length (options s')]"
    using wf_coins[OF wf] o
    by (auto simp: list_all_iff bets opts staked_snoc nth_list_update)
  moreover have "list_all (\<lambda>p. 0 \<le> totalPool p) (predictions s')"
    unfolding preds using wf wf_pool_nonneg[OF wf p] pos
    by (intro list_all_update) (simp_all add: wf_def)
  ultimately show ?thesis by (simp add: wf_def stakes_consistent_def)
qed

lemma wf_placeBet:
  "wf s \<Longrightarrow> wf (snd (placeBet now maxBet userId predictionId optionId betAmount currentOdds s))"
  using placeBet_tx_wf[of userId predictionId optionId betAmount currentOdds s]
    validateBet_None[of now maxBet userId predictionId optionId betAmount s]
  by (auto simp: placeBet_def prisma_transaction_def split: option.splits sum.splits)

lemma wf_apply_op: "wf s \<Longrightarrow> wf (apply_op maxBet op s)"
  by (cases op) (simp_all add: wf_placeBet wf_resolve wf_cancel)

lemma wf_run: "wf s \<Longrightarrow> wf (run maxBet ops s)"
  unfolding run_def by (induction ops arbitrary: s) (simp_all add: wf_apply_op)

section \<open>What a resolution credits\<close>

text \<open>
  A resolution that commits has paid no bet, and it has credited the reward to the
  creator and nothing else.
\<close>

lemma markLoser_coinBalance:
  assumes "markLoser now p ib t = Inr t'"
    and "map coinBalance (users t) = bs"
  shows "map coinBalance (users t') = bs"
proof -
  obtain bet_id bet where ib: "ib = (bet_id, bet)" by (cases ib)
  from markLoser_Inr[OF assms(1)[unfolded ib]]
  have "users t' = (users t)[b_userId bet := (users t ! b_userId bet)
        \<lparr>totalLosses := totalLosses (users t ! b_userId bet) + 1\<rparr>]"
    by simp
  then have "map coinBalance (users t') = map coinBalance (users t)"
    by (simp add: map_update_same)
  with assms(2) show ?thesis by simp
qed

lemma resolve_tx_credits:
  assumes "resolve_tx now p oid s = Inr s'"
  shows "winners p oid s = []
    \<and> prismaInt (creatorReward (totalPool (predictions s ! p)))
        = Inr (totalCoinBalance s' - totalCoinBalance s)"
  using assms
proof (rule resolve_tx_Inr)
  fix s1 s3 reward
  let ?c = "creatorId (predictions s ! p)"
  assume s1: "prediction_update p
       (\<lambda>q. q\<lparr>p_status := RESOLVED, correctOptionId := Some oid, p_resolvedAt := Some now\<rparr>) s
     = Inr s1"
    and nw: "winners p oid s = []"
    and l: "forEach (markLoser now p)
       (filter (\<lambda>ib. b_predictionId (snd ib) = p \<and> b_optionId (snd ib) \<noteq> oid)
               (enumerate 0 (bets s))) s1 = Inr s3"
    and r: "prismaInt (creatorReward (totalPool (predictions s ! p))) = Inr reward"
    and c: "?c < length (users s3)"
    and s': "s' = s3\<lparr>users := (users s3)[?c :=
        (users s3 ! ?c)\<lparr>coinBalance := coinBalance (users s3 ! ?c) + reward\<rparr>]\<rparr>"
  from s1 have u1: "map coinBalance (users s1) = map coinBalance (users s)"
    by (auto elim: prediction_updateE)
  have u3: "map coinBalance (users s3) = map coinBalance (users s)"
    by (rule forEach_preserves[where P = "\<lambda>t. map coinBalance (users t) = map coinBalance (users s)",
          OF l u1]) (rule markLoser_coinBalance)
  have "totalCoinBalance s' = totalCoinBalance s3 + reward"
    using c by (simp add: totalCoinBalance_def s' sum_list_map_update)
  also have "totalCoinBalance s3 = totalCoinBalance s"
    by (simp add: totalCoinBalance_def u3)
  finally show ?thesis using nw r by simp
qed

section \<open>Pools and option totals\<close>

lemma sum_filter_update:
  fixes f :: "'a \<Rightarrow> int"
  assumes "i < length xs" and "P y = P (xs ! i)"
  shows "sum_list (map f (filter P (xs[i := y])))
       = sum_list (map f (filter P xs)) + (if P (xs ! i) then f y - f (xs ! i) else 0)"
  using assms
proof (induction xs arbitrary: i)
  case Nil
  then show ?case by simp
next
  case (Cons x xs)
  then show ?case by (cases i) auto
qed

lemma pool_consistent_frame:
  assumes "options t = options s"
    and "map totalPool (predictions t) = map totalPool (predictions s)"
  shows "pool_consistent t = pool_consistent s"
proof -
  from assms(2) have len: "length (predictions t) = length (predictions s)"
    by (rule map_eq_imp_length_eq)
  have "totalPool (predictions t ! p) = totalPool (predictions s ! p)"
    if "p < length (predictions s)" for p
  proof -
    from that len have "map totalPool (predictions t) ! p = totalPool (predictions t ! p)"
      and "map totalPool (predictions s) ! p = totalPool (predictions s ! p)"
      by simp_all
    with assms(2) show ?thesis by simp
  qed
  then show ?thesis
    by (simp add: pool_consistent_def optionsTotal_def assms(1) len list_all_iff)
qed

lemma placeBet_tx_pool_consistent:
  assumes tx: "placeBet_tx userId predictionId optionId betAmount currentOdds s = Inr s'"
    and belongs: "o_predictionId (options s ! optionId) = predictionId"
    and pc: "pool_consistent s"
  shows "pool_consistent s'"
proof -
  note r = placeBet_tx_Inr[OF tx]
  from r have p: "predictionId < length (predictions s)"
    and o: "optionId < length (options s)" by simp_all
  from r have preds: "predictions s' = (predictions s)[predictionId := (predictions s ! predictionId)
           \<lparr>totalPool := totalPool (predictions s ! predictionId) + betAmount,
            p_totalBets := p_totalBets (predictions s ! predictionId) + 1\<rparr>]" by simp
  from r have opts: "options s' = (options s)[optionId := (options s ! optionId)
           \<lparr>totalCoins := totalCoins (options s ! optionId) + betAmount,
            o_totalBets := o_totalBets (options s ! optionId) + 1\<rparr>]" by simp
  have tot: "optionsTotal q s' = optionsTotal q s + (if q = predictionId then betAmount else 0)"
    for q
    unfolding optionsTotal_def opts
    using belongs by (subst sum_filter_update[OF o]) auto
  have "optionsTotal q s' = totalPool (predictions s' ! q)" if "q < length (predictions s)" for q
    using pc that p by (simp add: tot preds nth_list_update pool_consistent_def list_all_iff)
  then show ?thesis
    by (simp add: pool_consistent_def list_all_iff preds)
qed

lemma pool_consistent_resolve: "pool_consistent s \<Longrightarrow> pool_consistent (snd (resolve now p oid s))"
proof (cases "resolve_tx now p oid s")
  case (Inl e)
  assume "pool_consistent s"
  with Inl show ?thesis by (simp add: resolve_def prisma_transaction_def)
next
  case (Inr s')
  assume pc: "pool_consistent s"
  from resolve_tx_frame[OF Inr] have "pool_consistent s' = pool_consistent s"
    by (intro pool_consistent_frame) (simp_all add: frame_def)
  with pc Inr show ?thesis by (simp add: resolve_def prisma_transaction_def)
qed

lemma pool_consistent_cancel: "pool_consistent s \<Longrightarrow> pool_consistent (snd (cancel p s))"
proof (cases "cancel_tx p s")
  case (Inl e)
  assume "pool_consistent s"
  with Inl show ?thesis by (simp add: cancel_def prisma_transaction_def)
next
  case (Inr s')
  assume pc: "pool_consistent s"
  from cancel_tx_frame[OF Inr] have "pool_consistent s' = pool_consistent s"
    by (intro pool_consistent_frame) (simp_all add: frame_def)
  with pc Inr show ?thesis by (simp add: cancel_def prisma_transaction_def)
qed

text \<open>
  With the validation in front, no hypothesis on the option is left: a bet on an option
  of another prediction is refused.
\<close>

lemma pool_consistent_run: "pool_consistent s \<Longrightarrow> pool_consistent (run maxBet ops s)"
proof (induction ops arbitrary: s)
  case Nil
  then show ?case by (simp add: run_def)
next
  case (Cons op ops)
  have "pool_consistent (apply_op maxBet op s)"
  proof (cases op)
    case (PlaceBet now userId predictionId optionId betAmount currentOdds)
    show ?thesis
    proof (cases "validateBet now maxBet userId predictionId optionId betAmount s")
      case (Some e)
      with Cons.prems show ?thesis by (simp add: PlaceBet placeBet_def)
    next
      case None
      note v = validateBet_None[OF None]
      show ?thesis
      proof (cases "placeBet_tx userId predictionId optionId betAmount currentOdds s")
        case (Inl e)
        with None Cons.prems show ?thesis
          by (simp add: PlaceBet placeBet_def prisma_transaction_def)
      next
        case (Inr s')
        from v have "o_predictionId (options s ! optionId) = predictionId" by simp
        from placeBet_tx_pool_consistent[OF Inr this Cons.prems] None Inr show ?thesis
          by (simp add: PlaceBet placeBet_def prisma_transaction_def)
      qed
    qed
  next
    case (Resolve now p oid)
    then show ?thesis using Cons.prems by (simp add: pool_consistent_resolve)
  next
    case (Cancel p)
    then show ?thesis using Cons.prems by (simp add: pool_consistent_cancel)
  qed
  from Cons.IH[OF this] show ?case by (simp add: run_def)
qed

section \<open>The unique constraint\<close>

lemma betId_taken_iff: "betId_taken b txs \<longleftrightarrow> (\<exists>t\<in>set txs. t_betId t = Some b)"
  by (simp add: betId_taken_def list_ex_iff)

lemma map_filter_append: "List.map_filter f (xs @ ys) = List.map_filter f xs @ List.map_filter f ys"
  by (induction xs) (simp_all add: map_filter_simps split: option.splits)

lemma set_map_filter: "set (List.map_filter f xs) = {y. \<exists>x\<in>set xs. f x = Some y}"
  by (induction xs) (auto simp: map_filter_simps split: option.splits)

lemma betId_unique_snoc:
  "betId_unique (txs @ [row])
   \<longleftrightarrow> betId_unique txs \<and> (case t_betId row of None \<Rightarrow> True | Some b \<Rightarrow> \<not> betId_taken b txs)"
  by (simp add: betId_unique_def map_filter_append map_filter_simps set_map_filter
      betId_taken_iff split: option.splits)

lemma betId_unique_count:
  "betId_unique txs \<Longrightarrow> length (filter (\<lambda>t. t_betId t = Some b) txs) \<le> 1"
proof (induction txs rule: rev_induct)
  case Nil
  then show ?case by simp
next
  case (snoc row txs)
  from snoc.prems have u: "betId_unique txs"
    and new: "case t_betId row of None \<Rightarrow> True | Some b \<Rightarrow> \<not> betId_taken b txs"
    by (simp_all add: betId_unique_snoc)
  show ?case
  proof (cases "t_betId row = Some b")
    case True
    with new have "\<not> betId_taken b txs" by simp
    then have "filter (\<lambda>t. t_betId t = Some b) txs = []"
      by (simp add: betId_taken_iff filter_empty_conv)
    with True show ?thesis by simp
  next
    case False
    with snoc.IH[OF u] show ?thesis by simp
  qed
qed

section \<open>The example databases, evaluated\<close>

lemma scenarioA_eq:
  "scenarioA =
   \<lparr>users =
       [\<lparr>coinBalance = 1000, u_totalBets = 0, totalWins = 0, totalLosses = 0\<rparr>,
        \<lparr>coinBalance = 900, u_totalBets = 1, totalWins = 0, totalLosses = 0\<rparr>,
        \<lparr>coinBalance = 700, u_totalBets = 1, totalWins = 0, totalLosses = 0\<rparr>],
       predictions =
         [\<lparr>creatorId = 0, endDate = 100, p_resolvedAt = None,
             p_status = ACTIVE, correctOptionId = None, totalPool = 400,
             p_totalBets = 2\<rparr>],
       options =
         [\<lparr>o_predictionId = 0, o_totalBets = 1, totalCoins = 100\<rparr>,
          \<lparr>o_predictionId = 0, o_totalBets = 1, totalCoins = 300\<rparr>],
       bets =
         [\<lparr>b_userId = 1, b_predictionId = 0, b_optionId = 0, b_amount = 100,
             b_oddsAtBet = Fin 1, b_status = PENDING, b_payout = 0,
             b_resolvedAt = None\<rparr>,
          \<lparr>b_userId = 2, b_predictionId = 0, b_optionId = 1, b_amount = 300,
             b_oddsAtBet = Fin 4, b_status = PENDING, b_payout = 0,
             b_resolvedAt = None\<rparr>],
       transactions =
         [\<lparr>t_userId = 0, t_type = INITIAL_BALANCE, t_amount = 1000,
             t_balanceBefore = Some 0, t_balanceAfter = Some 1000,
             t_betId = None\<rparr>,
          \<lparr>t_userId = 1, t_type = INITIAL_BALANCE, t_amount = 1000,
             t_balanceBefore = Some 0, t_balanceAfter = Some 1000,
             t_betId = None\<rparr>,
          \<lparr>t_userId = 2, t_type = INITIAL_BALANCE, t_amount = 1000,
             t_balanceBefore = Some 0, t_balanceAfter = Some 1000,
             t_betId = None\<rparr>,
          \<lparr>t_userId = 1, t_type = BET_PLACED, t_amount = - 100,
             t_balanceBefore = Some 1000, t_balanceAfter = Some 900,
             t_betId = Some 0\<rparr>,
          \<lparr>t_userId = 2, t_type = BET_PLACED, t_amount = - 300,
             t_balanceBefore = Some 1000, t_balanceAfter = Some 700,
             t_betId = Some 1\<rparr>],
       notifications = []\<rparr>"
  by code_simp

lemma market_11_4_eq:
  "market_11_4 =
   \<lparr>users =
       [\<lparr>coinBalance = 1000, u_totalBets = 0, totalWins = 0, totalLosses = 0\<rparr>,
        \<lparr>coinBalance = 989, u_totalBets = 1, totalWins = 0, totalLosses = 0\<rparr>,
        \<lparr>coinBalance = 996, u_totalBets = 1, totalWins = 0, totalLosses = 0\<rparr>],
       predictions =
         [\<lparr>creatorId = 0, endDate = 100, p_resolvedAt = None,
             p_status = ACTIVE, correctOptionId = None, totalPool = 15,
             p_totalBets = 2\<rparr>],
       options =
         [\<lparr>o_predictionId = 0, o_totalBets = 1, totalCoins = 11\<rparr>,
          \<lparr>o_predictionId = 0, o_totalBets = 1, totalCoins = 4\<rparr>],
       bets =
         [\<lparr>b_userId = 1, b_predictionId = 0, b_optionId = 0, b_amount = 11,
             b_oddsAtBet = Fin 1, b_status = PENDING, b_payout = 0,
             b_resolvedAt = None\<rparr>,
          \<lparr>b_userId = 2, b_predictionId = 0, b_optionId = 1, b_amount = 4,
             b_oddsAtBet = Fin 4, b_status = PENDING, b_payout = 0,
             b_resolvedAt = None\<rparr>],
       transactions =
         [\<lparr>t_userId = 0, t_type = INITIAL_BALANCE, t_amount = 1000,
             t_balanceBefore = Some 0, t_balanceAfter = Some 1000,
             t_betId = None\<rparr>,
          \<lparr>t_userId = 1, t_type = INITIAL_BALANCE, t_amount = 1000,
             t_balanceBefore = Some 0, t_balanceAfter = Some 1000,
             t_betId = None\<rparr>,
          \<lparr>t_userId = 2, t_type = INITIAL_BALANCE, t_amount = 1000,
             t_balanceBefore = Some 0, t_balanceAfter = Some 1000,
             t_betId = None\<rparr>,
          \<lparr>t_userId = 1, t_type = BET_PLACED, t_amount = - 11,
             t_balanceBefore = Some 1000, t_balanceAfter = Some 989,
             t_betId = Some 0\<rparr>,
          \<lparr>t_userId = 2, t_type = BET_PLACED, t_amount = - 4,
             t_balanceBefore = Some 1000, t_balanceAfter = Some 996,
             t_betId = Some 1\<rparr>],
       notifications = []\<rparr>"
  by code_simp

lemma market_0_300_eq:
  "market_0_300 =
   \<lparr>users =
       [\<lparr>coinBalance = 1000, u_totalBets = 0, totalWins = 0, totalLosses = 0\<rparr>,
        \<lparr>coinBalance = 1000, u_totalBets = 0, totalWins = 0, totalLosses = 0\<rparr>,
        \<lparr>coinBalance = 700, u_totalBets = 1, totalWins = 0, totalLosses = 0\<rparr>],
       predictions =
         [\<lparr>creatorId = 0, endDate = 100, p_resolvedAt = None,
             p_status = ACTIVE, correctOptionId = None, totalPool = 300,
             p_totalBets = 1\<rparr>],
       options =
         [\<lparr>o_predictionId = 0, o_totalBets = 0, totalCoins = 0\<rparr>,
          \<lparr>o_predictionId = 0, o_totalBets = 1, totalCoins = 300\<rparr>],
       bets =
         [\<lparr>b_userId = 2, b_predictionId = 0, b_optionId = 1, b_amount = 300,
             b_oddsAtBet = Fin 1, b_status = PENDING, b_payout = 0,
             b_resolvedAt = None\<rparr>],
       transactions =
         [\<lparr>t_userId = 0, t_type = INITIAL_BALANCE, t_amount = 1000,
             t_balanceBefore = Some 0, t_balanceAfter = Some 1000,
             t_betId = None\<rparr>,
          \<lparr>t_userId = 1, t_type = INITIAL_BALANCE, t_amount = 1000,
             t_balanceBefore = Some 0, t_balanceAfter = Some 1000,
             t_betId = None\<rparr>,
          \<lparr>t_userId = 2, t_type = INITIAL_BALANCE, t_amount = 1000,
             t_balanceBefore = Some 0, t_balanceAfter = Some 1000,
             t_betId = None\<rparr>,
          \<lparr>t_userId = 2, t_type = BET_PLACED, t_amount = - 300,
             t_balanceBefore = Some 1000, t_balanceAfter = Some 700,
             t_betId = Some 0\<rparr>],
       notifications = []\<rparr>"
  by code_simp

text \<open>
  Resolving scenario A with option 0 as the correct one, or cancelling it, throws at the
  first \<^verbatim>\<open>transaction.create\<close> and leaves the database as it was; so does resolving
  \<open>market_11_4\<close>.
\<close>

lemma resolve_scenarioA: "resolve 200 0 0 scenarioA = (Some ValidationError, scenarioA)"
  by code_simp

lemma cancel_scenarioA: "cancel 0 scenarioA = (Some ValidationError, scenarioA)"
  by code_simp

lemma resolve_market_11_4: "resolve 200 0 0 market_11_4 = (Some ValidationError, market_11_4)"
  by code_simp

text \<open>
  Resolving \<open>market_0_300\<close> with option 0, on which nobody has bet, commits; and it
  commits once more.
\<close>

lemma resolve_market_0_300:
  "resolve 200 0 0 market_0_300 =
   (None,
     \<lparr>users =
        [\<lparr>coinBalance = 1015, u_totalBets = 0, totalWins = 0, totalLosses = 0\<rparr>,
         \<lparr>coinBalance = 1000, u_totalBets = 0, totalWins = 0, totalLosses = 0\<rparr>,
         \<lparr>coinBalance = 700, u_totalBets = 1, totalWins = 0, totalLosses = 1\<rparr>],
        predictions =
          [\<lparr>creatorId = 0, endDate = 100, p_resolvedAt = Some 200,
              p_status = RESOLVED, correctOptionId = Some 0, totalPool = 300,
              p_totalBets = 1\<rparr>],
        options =
          [\<lparr>o_predictionId = 0, o_totalBets = 0, totalCoins = 0\<rparr>,
           \<lparr>o_predictionId = 0, o_totalBets = 1, totalCoins = 300\<rparr>],
        bets =
          [\<lparr>b_userId = 2, b_predictionId = 0, b_optionId = 1, b_amount = 300,
              b_oddsAtBet = Fin 1, b_status = LOST, b_payout = 0,
              b_resolvedAt = Some 200\<rparr>],
        transactions =
          [\<lparr>t_userId = 0, t_type = INITIAL_BALANCE, t_amount = 1000,
              t_balanceBefore = Some 0, t_balanceAfter = Some 1000,
              t_betId = None\<rparr>,
           \<lparr>t_userId = 1, t_type = INITIAL_BALANCE, t_amount = 1000,
              t_balanceBefore = Some 0, t_balanceAfter = Some 1000,
              t_betId = None\<rparr>,
           \<lparr>t_userId = 2, t_type = INITIAL_BALANCE, t_amount = 1000,
              t_balanceBefore = Some 0, t_balanceAfter = Some 1000,
              t_betId = None\<rparr>,
           \<lparr>t_userId = 2, t_type = BET_PLACED, t_amount = - 300,
              t_balanceBefore = Some 1000, t_balanceAfter = Some 700,
              t_betId = Some 0\<rparr>],
        notifications =
          [\<lparr>recipientId = 2, n_type = N_BET_LOST, n_coins = None,
              n_predictionId = 0\<rparr>]\<rparr>)"
  by code_simp

lemma resolve_market_0_300_again:
  "resolve 201 0 0 (snd (resolve 200 0 0 market_0_300)) =
   (None,
     \<lparr>users =
        [\<lparr>coinBalance = 1030, u_totalBets = 0, totalWins = 0, totalLosses = 0\<rparr>,
         \<lparr>coinBalance = 1000, u_totalBets = 0, totalWins = 0, totalLosses = 0\<rparr>,
         \<lparr>coinBalance = 700, u_totalBets = 1, totalWins = 0, totalLosses = 2\<rparr>],
        predictions =
          [\<lparr>creatorId = 0, endDate = 100, p_resolvedAt = Some 201,
              p_status = RESOLVED, correctOptionId = Some 0, totalPool = 300,
              p_totalBets = 1\<rparr>],
        options =
          [\<lparr>o_predictionId = 0, o_totalBets = 0, totalCoins = 0\<rparr>,
           \<lparr>o_predictionId = 0, o_totalBets = 1, totalCoins = 300\<rparr>],
        bets =
          [\<lparr>b_userId = 2, b_predictionId = 0, b_optionId = 1, b_amount = 300,
              b_oddsAtBet = Fin 1, b_status = LOST, b_payout = 0,
              b_resolvedAt = Some 201\<rparr>],
        transactions =
          [\<lparr>t_userId = 0, t_type = INITIAL_BALANCE, t_amount = 1000,
              t_balanceBefore = Some 0, t_balanceAfter = Some 1000,
              t_betId = None\<rparr>,
           \<lparr>t_userId = 1, t_type = INITIAL_BALANCE, t_amount = 1000,
              t_balanceBefore = Some 0, t_balanceAfter = Some 1000,
              t_betId = None\<rparr>,
           \<lparr>t_userId = 2, t_type = INITIAL_BALANCE, t_amount = 1000,
              t_balanceBefore = Some 0, t_balanceAfter = Some 1000,
              t_betId = None\<rparr>,
           \<lparr>t_userId = 2, t_type = BET_PLACED, t_amount = - 300,
              t_balanceBefore = Some 1000, t_balanceAfter = Some 700,
              t_betId = Some 0\<rparr>],
        notifications =
          [\<lparr>recipientId = 2, n_type = N_BET_LOST, n_coins = None,
              n_predictionId = 0\<rparr>,
           \<lparr>recipientId = 2, n_type = N_BET_LOST, n_coins = None,
              n_predictionId = 0\<rparr>]\<rparr>)"
  by code_simp

text \<open>The double-precision values behind the payout of 14 coins, and two rewards.\<close>

lemma odds_15_11:
  "odds 15 11 = Fin (6141272219141585 / 2 ^ 52)
   \<and> js_mul (Number 11) (odds 15 11) = Fin (8444249301319679 / 2 ^ 49)
   \<and> Math_floor (js_mul (Number 11) (odds 15 11)) = Fin 14"
  by code_simp

lemma floor_15_11: "Math_floor (js_mul (Number 11) (odds 15 11)) = Fin 14"
  using odds_15_11 by blast

lemma payout_15_11: "b_amount bet = 11 \<Longrightarrow> payout bet (odds 15 11) = Fin 14"
  by (simp only: payout_def floor_15_11)

lemma creatorReward_300: "prismaInt (creatorReward 300) = Inr 15"
  by code_simp

lemma creatorReward_400: "prismaInt (creatorReward 400) = Inr 20"
  by code_simp

lemma payout_scenarioA: "prismaInt (payout (bets scenarioA ! 0) (odds 400 100)) = Inr 400"
  by code_simp

text \<open>Scenario A and its resolution as a list of operations.\<close>

lemma run_scenarioA_resolve:
  "run 1000 [PlaceBet 1 1 0 0 100 (Fin 1), PlaceBet 2 2 0 1 300 (Fin 4), Resolve 200 0 0] market0
   = snd (resolve 200 0 0 scenarioA)"
  by (simp add: run_def scenarioA_def)

lemma wf_scenarioA: "wf scenarioA"
  by (simp add: scenarioA_eq wf_def nonneg_balances_def stakes_consistent_def staked_def)

lemma wf_market_0_300: "wf market_0_300"
  by (simp add: market_0_300_eq wf_def nonneg_balances_def stakes_consistent_def staked_def)

section \<open>The claims\<close>

text \<open>
  C1 (the payout of a winning wager is \<open>floor (amount * pool / coinsOnOption)\<close>, from the
  totals at resolution, not from the odds at placement). The payout that the script
  computes for a bet on the correct option is
  \<^verbatim>\<open>Math.floor(bet.amount * (prediction.totalPool / correctOption.totalCoins))\<close>: it
  takes the totals at resolution and does not read \<^verbatim>\<open>oddsAtBet\<close>, but it is not that
  floor. It divides first, in double precision, and multiplies the rounded quotient.
  With 11 coins on the correct option, all of one bettor, and a pool of 15, the double
  nearest to 15 / 11 lies below 15 / 11, its product with 11 rounds to the double just
  below 15 (lemma \<open>odds_15_11\<close>), and \<^verbatim>\<open>Math.floor\<close> makes the payout 14 coins where
  \<open>floor (11 * 15 / 11)\<close> is 15. The payout is not stored either: the resolution of this
  market throws at the \<^verbatim>\<open>BET_WON\<close> entry and is rolled back.
\<close>

theorem payout_one_coin_short:
  "b_predictionId (bets market_11_4 ! 0) = 0
   \<and> b_optionId (bets market_11_4 ! 0) = 0
   \<and> b_amount (bets market_11_4 ! 0) = 11
   \<and> totalPool (predictions market_11_4 ! 0) = 15
   \<and> totalCoins (options market_11_4 ! 0) = 11
   \<and> (\<forall>x. payout ((bets market_11_4 ! 0)\<lparr>b_oddsAtBet := x\<rparr>)
             (odds (totalPool (predictions market_11_4 ! 0))
                   (totalCoins (options market_11_4 ! 0))) = Fin 14)
   \<and> \<lfloor>(11 * 15 / 11 :: rat)\<rfloor> = 15
   \<and> resolve 200 0 0 market_11_4 = (Some ValidationError, market_11_4)"
  by (simp only: resolve_market_11_4) (simp add: market_11_4_eq payout_15_11)

text \<open>
  C2 (the payouts of the winning wagers of a resolved market sum to at most its pool, so
  that no resolution distributes more to the winners than was wagered). For a
  well-formed database whose pool and option total are in the range of \<^verbatim>\<open>Int\<close>: the
  payouts that the script computes for the bets on the correct option are coins, none
  negative, and they sum to at most \<^verbatim>\<open>totalPool\<close>. Rounding to a double can push a
  product up as well as down, so the bound rests on the error of the two roundings, not
  on the floor alone. And a resolution that commits leaves no bet on the correct option,
  since a step that pays a winner throws: the \<^verbatim>\<open>payout\<close> columns of the winning bets of
  a resolved prediction sum to at most its pool.
\<close>

theorem winning_payouts_le_pool:
  assumes wf: "wf s"
    and p: "predictionId < length (predictions s)"
    and oid: "correctOptionId' < length (options s)"
    and pool: "int32 (totalPool (predictions s ! predictionId))"
    and coins: "int32 (totalCoins (options s ! correctOptionId'))"
  shows "(\<exists>payouts.
            map (\<lambda>bet. prismaInt (payout bet (odds (totalPool (predictions s ! predictionId))
                                                  (totalCoins (options s ! correctOptionId')))))
                (winners predictionId correctOptionId' s) = map Inr payouts
            \<and> list_all (\<lambda>n. 0 \<le> n) payouts
            \<and> sum_list payouts \<le> totalPool (predictions s ! predictionId))
    \<and> (resolve now predictionId correctOptionId' s = (None, s')
         \<longrightarrow> winners predictionId correctOptionId' s' = []
           \<and> sum_list (map b_payout (winners predictionId correctOptionId' s'))
               \<le> totalPool (predictions s' ! predictionId))"
proof (intro conjI impI)
  let ?P = "totalPool (predictions s ! predictionId)"
  let ?C = "totalCoins (options s ! correctOptionId')"
  let ?W = "winners predictionId correctOptionId' s"
  let ?as = "map b_amount ?W"
  define pay where "pay = (\<lambda>a. \<lfloor>fl (of_int a * fl (of_int ?P / of_int ?C))\<rfloor>)"
  have P0: "0 \<le> ?P" using wf p by (rule wf_pool_nonneg)
  have P1: "?P < 2 ^ 31" using pool by (simp add: int32_def)
  have C1: "?C < 2 ^ 31" using coins by (simp add: int32_def)
  have pos: "\<forall>b\<in>set (bets s). 0 < b_amount b" using wf_amount_pos[OF wf] by blast
  then have as0: "\<forall>a\<in>set ?as. 0 \<le> a" by (auto simp: winners_def)
  have "sum_list (map b_amount (filter (\<lambda>b. b_predictionId b = predictionId
            \<and> b_optionId b = correctOptionId') (bets s)))
        \<le> sum_list (map b_amount (filter (\<lambda>b. b_optionId b = correctOptionId') (bets s)))"
    using pos by (intro sum_list_filter_conj_le) (simp add: less_imp_le)
  then have asC: "sum_list ?as \<le> ?C"
    using wf_coins[OF wf oid] by (simp add: staked_def winners_def)
  show "\<exists>payouts.
          map (\<lambda>bet. prismaInt (payout bet (odds ?P ?C))) ?W = map Inr payouts
          \<and> list_all (\<lambda>n. 0 \<le> n) payouts \<and> sum_list payouts \<le> ?P"
  proof (cases "?W = []")
    case True
    then show ?thesis using P0 by simp
  next
    case False
    then obtain w where w: "w \<in> set ?W" by (cases ?W) auto
    then have "b_amount w \<in> set ?as" by simp
    moreover from w pos have "0 < b_amount w" by (auto simp: winners_def)
    ultimately have "0 < sum_list ?as"
      using elem_le_sum_list[OF as0, of "b_amount w"] by simp
    with asC have C0: "0 < ?C" by simp
    have pay0: "0 \<le> pay a" if "a \<in> set ?as" for a
      unfolding pay_def using that as0 by (intro payout_floor_nonneg[OF _ P0 C0]) blast
    then have pays0: "\<forall>n\<in>set (map pay ?as). 0 \<le> n" by auto
    have "sum_list (map pay ?as) \<le> ?P"
      unfolding pay_def using P0 P1 C0 as0 asC by (rule payouts_le_pool)
    then have le: "sum_list (map pay ?as) < 2 ^ 31" using P1 by (rule le_less_trans)
    have each: "prismaInt (payout bet (odds ?P ?C)) = Inr (pay (b_amount bet))"
      if "bet \<in> set ?W" for bet
    proof -
      from that have a: "b_amount bet \<in> set ?as" by simp
      have "b_amount bet \<le> sum_list ?as" using as0 a by (rule elem_le_sum_list)
      also note asC
      also note C1
      finally have a1: "b_amount bet < 2 ^ 31" .
      have a0: "0 \<le> b_amount bet" using as0 a by blast
      from a have "pay (b_amount bet) \<in> pay ` set ?as" by (rule imageI)
      then have "pay (b_amount bet) \<in> set (map pay ?as)" by (simp only: set_map)
      with pays0 have "pay (b_amount bet) \<le> sum_list (map pay ?as)" by (rule elem_le_sum_list)
      then have "pay (b_amount bet) < 2 ^ 31" using le by (rule le_less_trans)
      then show ?thesis
        unfolding pay_def by (rule prismaInt_payout[OF a0 a1 P0 P1 C0 C1])
    qed
    have m: "map (\<lambda>bet. prismaInt (payout bet (odds ?P ?C))) ?W = map Inr (map pay ?as)"
      using each by (simp add: comp_def)
    have nn: "list_all (\<lambda>n. 0 \<le> n) (map pay ?as)"
      using pays0 by (simp only: list_all_iff)
    from m nn \<open>sum_list (map pay ?as) \<le> ?P\<close> show ?thesis by blast
  qed
next
  assume res: "resolve now predictionId correctOptionId' s = (None, s')"
  note tx = resolve_None[OF res]
  note f = resolve_tx_frame[OF tx]
  from resolve_tx_credits[OF tx] have "winners predictionId correctOptionId' s = []" by simp
  then show nw: "winners predictionId correctOptionId' s' = []"
    using f by (simp add: winners_wagers frame_def)
  have "0 \<le> totalPool (predictions s ! predictionId)" using wf p by (rule wf_pool_nonneg)
  then show "sum_list (map b_payout (winners predictionId correctOptionId' s'))
      \<le> totalPool (predictions s' ! predictionId)"
    using frame_pool[OF f p] by (simp add: nw)
qed

theorem winning_payouts_le_pool_witness:
  "wf scenarioA \<and> 0 < length (predictions scenarioA) \<and> 0 < length (options scenarioA)
   \<and> int32 (totalPool (predictions scenarioA ! 0))
   \<and> int32 (totalCoins (options scenarioA ! 0))
   \<and> map b_amount (winners 0 0 scenarioA) = [100]
   \<and> map (\<lambda>bet. prismaInt (payout bet (odds (totalPool (predictions scenarioA ! 0))
                                             (totalCoins (options scenarioA ! 0)))))
         (winners 0 0 scenarioA) = map Inr [400]
   \<and> totalPool (predictions scenarioA ! 0) = 400
   \<and> wf market_0_300 \<and> 0 < length (predictions market_0_300)
   \<and> 0 < length (options market_0_300)
   \<and> int32 (totalPool (predictions market_0_300 ! 0))
   \<and> int32 (totalCoins (options market_0_300 ! 0))
   \<and> fst (resolve 200 0 0 market_0_300) = None
   \<and> winners 0 0 (snd (resolve 200 0 0 market_0_300)) = []
   \<and> totalPool (predictions (snd (resolve 200 0 0 market_0_300)) ! 0) = 300"
proof -
  have a1: "0 < length (predictions scenarioA)" "0 < length (options scenarioA)"
    by (simp_all add: scenarioA_eq)
  have a2: "int32 (totalPool (predictions scenarioA ! 0))"
    "int32 (totalCoins (options scenarioA ! 0))"
    by (simp_all add: scenarioA_eq int32_def)
  have a3: "map b_amount (winners 0 0 scenarioA) = [100]"
    "totalPool (predictions scenarioA ! 0) = 400"
    by (simp_all add: scenarioA_eq winners_def)
  from winning_payouts_le_pool[OF wf_scenarioA a1 a2] obtain payouts where
    m: "map (\<lambda>bet. prismaInt (payout bet (odds (totalPool (predictions scenarioA ! 0))
                                             (totalCoins (options scenarioA ! 0)))))
          (winners 0 0 scenarioA) = map Inr payouts"
    and le: "sum_list payouts \<le> totalPool (predictions scenarioA ! 0)"
    by blast
  have w: "winners 0 0 scenarioA = [bets scenarioA ! 0]"
    by (simp add: scenarioA_eq winners_def)
  have "totalPool (predictions scenarioA ! 0) = 400 \<and> totalCoins (options scenarioA ! 0) = 100"
    by (simp add: scenarioA_eq)
  with m w payout_scenarioA have "map Inr payouts = [Inr 400 :: error + int]"
    by simp
  with m have a4: "map (\<lambda>bet. prismaInt (payout bet (odds (totalPool (predictions scenarioA ! 0))
                                             (totalCoins (options scenarioA ! 0)))))
          (winners 0 0 scenarioA) = map Inr [400]"
    by simp
  have b1: "0 < length (predictions market_0_300)" "0 < length (options market_0_300)"
    by (simp_all add: market_0_300_eq)
  have b2: "int32 (totalPool (predictions market_0_300 ! 0))"
    "int32 (totalCoins (options market_0_300 ! 0))"
    by (simp_all add: market_0_300_eq int32_def)
  have b3: "resolve 200 0 0 market_0_300 = (None, snd (resolve 200 0 0 market_0_300))"
    by (simp add: resolve_market_0_300)
  have b4: "totalPool (predictions (snd (resolve 200 0 0 market_0_300)) ! 0) = 300"
    by (simp add: resolve_market_0_300)
  from winning_payouts_le_pool[OF wf_market_0_300 b1 b2, of 200 "snd (resolve 200 0 0 market_0_300)"] b3
  have b5: "winners 0 0 (snd (resolve 200 0 0 market_0_300)) = []" by simp
  from b3 have b6: "fst (resolve 200 0 0 market_0_300) = None" by (metis fst_conv)
  from wf_scenarioA a1 a2 a3 a4 wf_market_0_300 b1 b2 b4 b5 b6 show ?thesis by simp
qed

text \<open>
  C3 (a creator reward is taken only from the dust of the floors: what one resolution
  credits, payouts and reward together, never exceeds the pool). For a well-formed
  database and any prediction, option and outcome of \<^verbatim>\<open>resolve\<close>: a resolution that
  throws leaves the database as it was; one that commits had no bet on the correct
  option to pay, and what it has credited is the reward
  \<^verbatim>\<open>Math.floor(prediction.totalPool * 0.05)\<close> of the creator. In either case the coins
  credited are at least 0 and at most the pool.
\<close>

theorem resolve_credits_le_pool:
  assumes wf: "wf s"
    and p: "predictionId < length (predictions s)"
    and res: "resolve now predictionId correctOptionId' s = (r, s')"
  shows "(case r of
            Some e \<Rightarrow> s' = s
          | None \<Rightarrow>
              winners predictionId correctOptionId' s = []
              \<and> prismaInt (creatorReward (totalPool (predictions s ! predictionId)))
                  = Inr (totalCoinBalance s' - totalCoinBalance s))
    \<and> 0 \<le> totalCoinBalance s' - totalCoinBalance s
    \<and> totalCoinBalance s' - totalCoinBalance s \<le> totalPool (predictions s ! predictionId)"
proof (cases r)
  case (Some e)
  have "0 \<le> totalPool (predictions s ! predictionId)" using wf p by (rule wf_pool_nonneg)
  with resolve_Some[OF res[unfolded Some]] Some show ?thesis by simp
next
  case None
  have P0: "0 \<le> totalPool (predictions s ! predictionId)" using wf p by (rule wf_pool_nonneg)
  note c = resolve_tx_credits[OF resolve_None[OF res[unfolded None]]]
  from c have r: "prismaInt (creatorReward (totalPool (predictions s ! predictionId)))
      = Inr (totalCoinBalance s' - totalCoinBalance s)" by simp
  from prismaInt_creatorReward_nonneg[OF P0 r] prismaInt_creatorReward_le[OF P0 r] c None
  show ?thesis by simp
qed

theorem resolve_credits_le_pool_witness:
  "wf market_0_300 \<and> 0 < length (predictions market_0_300)
   \<and> fst (resolve 200 0 0 market_0_300) = None
   \<and> totalCoinBalance (snd (resolve 200 0 0 market_0_300)) - totalCoinBalance market_0_300 = 15
   \<and> totalPool (predictions market_0_300 ! 0) = 300
   \<and> wf scenarioA \<and> 0 < length (predictions scenarioA)
   \<and> resolve 200 0 0 scenarioA = (Some ValidationError, scenarioA)
   \<and> totalPool (predictions scenarioA ! 0) = 400"
proof -
  let ?s' = "snd (resolve 200 0 0 market_0_300)"
  have b1: "0 < length (predictions market_0_300)" by (simp add: market_0_300_eq)
  have b2: "resolve 200 0 0 market_0_300 = (None, ?s')" by (simp add: resolve_market_0_300)
  have b3: "totalPool (predictions market_0_300 ! 0) = 300" by (simp add: market_0_300_eq)
  from resolve_credits_le_pool[OF wf_market_0_300 b1 b2]
  have "prismaInt (creatorReward (totalPool (predictions market_0_300 ! 0)))
      = Inr (totalCoinBalance ?s' - totalCoinBalance market_0_300)"
    and "totalCoinBalance ?s' - totalCoinBalance market_0_300
      \<le> totalPool (predictions market_0_300 ! 0)"
    by simp_all
  then have b4: "totalCoinBalance ?s' - totalCoinBalance market_0_300 = 15"
    by (simp add: b3 creatorReward_300)
  from b2 have b5: "fst (resolve 200 0 0 market_0_300) = None" by (metis fst_conv)
  have a1: "0 < length (predictions scenarioA)" by (simp add: scenarioA_eq)
  have a2: "totalPool (predictions scenarioA ! 0) = 400" by (simp add: scenarioA_eq)
  from resolve_credits_le_pool[OF wf_scenarioA a1 resolve_scenarioA]
  have "totalCoinBalance scenarioA - totalCoinBalance scenarioA
      \<le> totalPool (predictions scenarioA ! 0)" by simp
  with wf_market_0_300 b1 b3 b4 b5 wf_scenarioA a1 a2 resolve_scenarioA show ?thesis by simp
qed

text \<open>
  C4 (a second \<^verbatim>\<open>resolve\<close> of a resolved market fails with \<open>AlreadyResolved\<close> and changes
  nothing). The script writes \<^verbatim>\<open>status: 'RESOLVED'\<close> without reading the status. In
  \<open>market_0_300\<close> the only bet is on option 1: resolved with option 0, the prediction
  is \<^verbatim>\<open>RESOLVED\<close> and the creator holds 1015 coins; a second call commits as well,
  credits the reward again (1030 coins), counts the loss of the bettor a second time,
  overwrites \<^verbatim>\<open>resolvedAt\<close> and sends a second notification.
\<close>

theorem resolve_twice_rewards_twice:
  "fst (resolve 200 0 0 market_0_300) = None
   \<and> p_status (predictions (snd (resolve 200 0 0 market_0_300)) ! 0) = RESOLVED
   \<and> map coinBalance (users (snd (resolve 200 0 0 market_0_300))) = [1015, 1000, 700]
   \<and> fst (resolve 201 0 0 (snd (resolve 200 0 0 market_0_300))) = None
   \<and> map coinBalance (users (snd (resolve 201 0 0 (snd (resolve 200 0 0 market_0_300)))))
       = [1030, 1000, 700]
   \<and> map totalLosses (users (snd (resolve 201 0 0 (snd (resolve 200 0 0 market_0_300)))))
       = [0, 0, 2]
   \<and> p_resolvedAt (predictions (snd (resolve 201 0 0 (snd (resolve 200 0 0 market_0_300)))) ! 0)
       = Some 201
   \<and> length (notifications (snd (resolve 201 0 0 (snd (resolve 200 0 0 market_0_300)))))
       = length (notifications (snd (resolve 200 0 0 market_0_300))) + 1"
  by (simp only: resolve_market_0_300_again) (simp add: resolve_market_0_300)

text \<open>
  C5 (a wager above the balance fails with \<open>InsufficientFunds\<close> and leaves the state
  untouched). For an account whose balance is below the amount, \<open>placeBet\<close> fails and
  returns the database it was given; the failure is \<open>InsufficientFunds\<close> when the
  preconditions that the specification checks before the funds hold (the market exists,
  the option is one of its options, it is \<^verbatim>\<open>ACTIVE\<close> and has not ended, the amount is
  positive and at most the ceiling).
\<close>

theorem placeBet_insufficient_funds:
  assumes "userId < length (users s)"
    and "coinBalance (users s ! userId) < betAmount"
  shows "snd (placeBet now maxBet userId predictionId optionId betAmount currentOdds s) = s
    \<and> fst (placeBet now maxBet userId predictionId optionId betAmount currentOdds s) \<noteq> None
    \<and> (predictionId < length (predictions s) \<and> optionId < length (options s)
        \<and> o_predictionId (options s ! optionId) = predictionId
        \<and> p_status (predictions s ! predictionId) = ACTIVE
        \<and> now < endDate (predictions s ! predictionId)
        \<and> 0 < betAmount \<and> betAmount \<le> maxBet
       \<longrightarrow> fst (placeBet now maxBet userId predictionId optionId betAmount currentOdds s)
             = Some InsufficientFunds)"
  using assms by (simp add: placeBet_def validateBet_def)

theorem placeBet_insufficient_funds_witness:
  "coinBalance (users scenarioB ! 1) = 500
   \<and> fst (placeBet 1 1000 1 0 0 600 (Fin 1) scenarioB) = Some InsufficientFunds
   \<and> snd (placeBet 1 1000 1 0 0 600 (Fin 1) scenarioB) = scenarioB"
proof -
  have h1: "1 < length (users scenarioB)"
    by (simp add: scenarioB_def)
  have h2: "coinBalance (users scenarioB ! 1) < 600"
    by (simp add: scenarioB_def newUser_def)
  have h3: "0 < length (predictions scenarioB) \<and> 0 < length (options scenarioB)
        \<and> o_predictionId (options scenarioB ! 0) = 0
        \<and> p_status (predictions scenarioB ! 0) = ACTIVE
        \<and> 1 < endDate (predictions scenarioB ! 0)
        \<and> (0::int) < 600 \<and> (600::int) \<le> 1000"
    by (simp add: scenarioB_def market0_def)
  from placeBet_insufficient_funds[OF h1 h2, of 1 1000 0 0 "Fin 1"] h3 show ?thesis
    by (simp add: scenarioB_def newUser_def)
qed

text \<open>
  C6 (no balance is ever negative, after any sequence of \<open>placeWager\<close>, \<^verbatim>\<open>resolve\<close> and
  \<^verbatim>\<open>cancel\<close>). From a well-formed database (no negative balance or pool, every bet
  positive, every option total the sum of its bets), after any list of operations with
  any arguments, every \<^verbatim>\<open>coinBalance\<close> is at least 0.
\<close>

theorem balance_never_negative:
  assumes "wf s" and "u \<in> set (users (run maxBet ops s))"
  shows "0 \<le> coinBalance u"
  using wf_run[OF assms(1), of maxBet ops] assms(2)
  by (simp add: wf_def nonneg_balances_def list_all_iff)

theorem balance_never_negative_witness:
  "wf market0
   \<and> map coinBalance
       (users (run 1000 [PlaceBet 1 1 0 0 100 (Fin 1), PlaceBet 2 2 0 1 300 (Fin 4),
                         Resolve 200 0 0] market0))
     = [1000, 900, 700]
   \<and> 0 \<le> coinBalance
       (users (run 1000 [PlaceBet 1 1 0 0 100 (Fin 1), PlaceBet 2 2 0 1 300 (Fin 4),
                         Resolve 200 0 0] market0) ! 2)"
proof -
  let ?s = "run 1000 [PlaceBet 1 1 0 0 100 (Fin 1), PlaceBet 2 2 0 1 300 (Fin 4),
                      Resolve 200 0 0] market0"
  have h1: "wf market0"
    by (simp add: wf_def nonneg_balances_def stakes_consistent_def staked_def market0_def
        newUser_def)
  have h2: "map coinBalance (users ?s) = [1000, 900, 700]"
    by (simp only: run_scenarioA_resolve resolve_scenarioA) (simp add: scenarioA_eq)
  have h3: "users ?s ! 2 \<in> set (users ?s)"
    by (simp only: run_scenarioA_resolve resolve_scenarioA) (simp add: scenarioA_eq)
  from balance_never_negative[OF h1 h3] h1 h2 show ?thesis by simp
qed

text \<open>
  C7 (the odds are \<open>pool / coinsOnOption\<close>, and \<open>1.0\<close> for an option without coins). The
  scripts divide with no test of the divisor, in the odds shown while a bet is entered
  and in \<^verbatim>\<open>oddsForWinners\<close>: for an option nobody has bet on the quotient is
  \<^verbatim>\<open>Infinity\<close>, and \<^verbatim>\<open>NaN\<close> when the pool is empty as well, the input for which the
  unit test of \<^verbatim>\<open>calculateOdds\<close> expects \<open>1.0\<close>.
\<close>

theorem odds_of_option_without_coins:
  "odds 0 0 = NaN \<and> odds 100 0 = PInf
   \<and> oddsPreview (predictions market0 ! 0) 1 (options market0 ! 1) 0 100 = PInf
   \<and> odds 0 0 \<noteq> Fin 1 \<and> odds 100 0 \<noteq> Fin 1"
  by code_simp

text \<open>
  C8 (after every committed wager the option totals of a market sum to its pool, and
  every operation keeps it so). If the option totals of every prediction sum to its
  pool, they do so after a \<open>placeBet_tx\<close> that commits a bet on an option of the
  prediction it names, after \<^verbatim>\<open>resolve\<close> and after \<^verbatim>\<open>cancel\<close>.
\<close>

theorem pool_consistent_preserved:
  assumes "pool_consistent s"
  shows "(placeBet_tx userId predictionId optionId betAmount currentOdds s = Inr s'
          \<and> o_predictionId (options s ! optionId) = predictionId \<longrightarrow> pool_consistent s')
    \<and> pool_consistent (snd (resolve now predictionId correctOptionId' s))
    \<and> pool_consistent (snd (cancel predictionId s))"
  using assms placeBet_tx_pool_consistent[of userId predictionId optionId betAmount currentOdds s s']
  by (simp add: pool_consistent_resolve pool_consistent_cancel)

theorem pool_consistent_preserved_witness:
  "pool_consistent market0
   \<and> placeBet_tx 1 0 0 100 (Fin 1) market0 = Inr (run 1000 [PlaceBet 1 1 0 0 100 (Fin 1)] market0)
   \<and> o_predictionId (options market0 ! 0) = 0
   \<and> optionsTotal 0 (run 1000 [PlaceBet 1 1 0 0 100 (Fin 1)] market0) = 100
   \<and> pool_consistent (run 1000 [PlaceBet 1 1 0 0 100 (Fin 1)] market0)
   \<and> pool_consistent (snd (resolve 200 0 0 market0))
   \<and> pool_consistent (snd (cancel 0 market0))"
proof -
  let ?s' = "run 1000 [PlaceBet 1 1 0 0 100 (Fin 1)] market0"
  have h1: "pool_consistent market0" by code_simp
  have h2: "placeBet_tx 1 0 0 100 (Fin 1) market0 = Inr ?s'" by code_simp
  have h3: "o_predictionId (options market0 ! 0) = 0" by code_simp
  have h4: "optionsTotal 0 ?s' = 100" by code_simp
  from pool_consistent_preserved[OF h1, of 1 0 0 100 "Fin 1" ?s' 200 0] h1 h2 h3 h4
  show ?thesis by simp
qed

text \<open>
  C9 (every ledger entry has \<open>balanceAfter = balanceBefore + amount\<close>, and the amounts of
  an account's entries sum to its balance, for the entries of \<open>placeWager\<close>, \<^verbatim>\<open>resolve\<close>
  and \<^verbatim>\<open>cancel\<close> alike). The entries that \<open>placeBet\<close> writes carry both balances, and
  \<open>market_0_300\<close> is a consistent ledger. Its resolution with option 0 commits and
  credits the creator's reward with no entry: the table of entries is as it was, every
  entry is well formed, the creator's entries sum to 1000, and the creator holds 1015
  coins. The \<^verbatim>\<open>BET_WON\<close> entry of \<^verbatim>\<open>resolve\<close> and the \<^verbatim>\<open>BET_REFUNDED\<close> entry of
  \<^verbatim>\<open>cancel\<close> carry no balance and are refused: the resolution and the cancellation of
  scenario A are rolled back.
\<close>

theorem resolve_reward_without_entry:
  "ledger_consistent market_0_300
   \<and> fst (resolve 200 0 0 market_0_300) = None
   \<and> transactions (snd (resolve 200 0 0 market_0_300)) = transactions market_0_300
   \<and> list_all entry_ok (transactions (snd (resolve 200 0 0 market_0_300)))
   \<and> replay 0 (transactions (snd (resolve 200 0 0 market_0_300))) = 1000
   \<and> coinBalance (users (snd (resolve 200 0 0 market_0_300)) ! 0) = 1015
   \<and> \<not> ledger_consistent (snd (resolve 200 0 0 market_0_300))
   \<and> resolve 200 0 0 scenarioA = (Some ValidationError, scenarioA)
   \<and> cancel 0 scenarioA = (Some ValidationError, scenarioA)"
  by (simp only: resolve_market_0_300 resolve_scenarioA cancel_scenarioA)
     (simp add: market_0_300_eq ledger_consistent_def entry_ok_def replay_def)

text \<open>
  C10 (at most one transaction can reference a bet: \<^verbatim>\<open>betId\<close> is unique, so the entry
  that debits a wager excludes a later payout or refund entry for the same bet). In a
  table that satisfies the constraint at most one row names a given bet; a
  \<^verbatim>\<open>transaction.create\<close> under the schema keeps the constraint; it rejects a row that
  names a bet which a row of the table names; and after \<open>placeBet_tx\<close> has committed, it
  rejects every row that names the new bet, whatever its type and balances.
\<close>

theorem betId_second_entry_rejected:
  "(betId_unique txs \<longrightarrow> length (filter (\<lambda>t. t_betId t = Some bet_id) txs) \<le> 1)
   \<and> (betId_unique txs \<and> schema_transaction_create row txs = Inr txs' \<longrightarrow> betId_unique txs')
   \<and> (betId_taken bet_id txs \<and> t_betId row = Some bet_id
        \<longrightarrow> (\<exists>e. schema_transaction_create row txs = Inl e))
   \<and> (placeBet_tx userId predictionId optionId betAmount currentOdds s = Inr s'
        \<and> t_betId row = Some (length (bets s))
        \<longrightarrow> (\<exists>e. schema_transaction_create row (transactions s') = Inl e))"
proof (intro conjI impI)
  assume "betId_unique txs"
  then show "length (filter (\<lambda>t. t_betId t = Some bet_id) txs) \<le> 1"
    by (rule betId_unique_count)
next
  assume "betId_unique txs \<and> schema_transaction_create row txs = Inr txs'"
  then show "betId_unique txs'"
    by (auto simp: schema_transaction_create_def betId_unique_snoc
        split: if_splits option.splits)
next
  assume "betId_taken bet_id txs \<and> t_betId row = Some bet_id"
  then show "\<exists>e. schema_transaction_create row txs = Inl e"
    by (simp add: schema_transaction_create_def)
next
  assume a: "placeBet_tx userId predictionId optionId betAmount currentOdds s = Inr s'
        \<and> t_betId row = Some (length (bets s))"
  then have "betId_taken (length (bets s)) (transactions s')"
    using placeBet_tx_Inr[of userId predictionId optionId betAmount currentOdds s s']
    by (simp add: betId_taken_def)
  with a show "\<exists>e. schema_transaction_create row (transactions s') = Inl e"
    by (simp add: schema_transaction_create_def)
qed

theorem betId_second_entry_rejected_witness:
  "betId_unique (transactions scenarioA)
   \<and> betId_taken 0 (transactions scenarioA)
   \<and> schema_transaction_create
        \<lparr>t_userId = 1, t_type = BET_WON, t_amount = 400, t_balanceBefore = Some 900,
         t_balanceAfter = Some 1300, t_betId = Some 0\<rparr> (transactions scenarioA)
      = Inl UniqueConstraintFailed
   \<and> length (filter (\<lambda>t. t_betId t = Some 0) (transactions scenarioA)) = 1"
proof -
  let ?row = "\<lparr>t_userId = 1, t_type = BET_WON, t_amount = 400, t_balanceBefore = Some 900,
         t_balanceAfter = Some 1300, t_betId = Some 0\<rparr>"
  have h1: "betId_unique (transactions scenarioA)" by code_simp
  have h2: "betId_taken 0 (transactions scenarioA)" by code_simp
  have h3: "t_betId ?row = Some 0" by simp
  have h4: "length (filter (\<lambda>t. t_betId t = Some 0) (transactions scenarioA)) = 1"
    by (simp add: scenarioA_eq)
  from betId_second_entry_rejected[of "transactions scenarioA" 0 ?row] h1 h2 h3
  have "\<exists>e. schema_transaction_create ?row (transactions scenarioA) = Inl e" by simp
  then have "schema_transaction_create ?row (transactions scenarioA) = Inl UniqueConstraintFailed"
    by (auto simp: schema_transaction_create_def split: if_splits)
  with h1 h2 h4 show ?thesis by simp
qed

end
